theory Spec2Isabelle
  imports
    Main
    "HOL-Library.Char_ord"
    "HOL-Library.List_Lexorder"
    "HOL-Library.Sublist"
    "HOL-Library.AList"
    "HOL-Library.Word"
begin

unbundle bit_operations_syntax

section \<open>JSON values and HTTP replies\<close>

text \<open>
  A JavaScript string is modelled as a \<^typ>\<open>string\<close>: one \<^typ>\<open>char\<close> per code unit, so
  that \<^term>\<open>length s\<close> is what \<^verbatim>\<open>s.length\<close> (and zod's \<^verbatim>\<open>min\<close>/\<^verbatim>\<open>max\<close>) counts.
  A parsed JSON value is a \<open>json\<close>; the association list of \<open>JObj\<close> holds the
  object's own properties in order, and a property is read with \<^const>\<open>map_of\<close>. A
  number is kept as an integer: no handler looks at one.
\<close>

datatype json =
    JNull
  | JBool bool
  | JNum int
  | JStr string
  | JArr "json list"
  | JObj "(string \<times> json) list"

text \<open>
  What a handler returns: \<^verbatim>\<open>c.json(obj, status)\<close> (status 200 when omitted) or the
  plain text of the router's own not-found reply. Headers, and with them what
  \<^verbatim>\<open>cors()\<close> adds, are not modelled.
\<close>

datatype payload = Json json | Text string

record response =
  status :: nat
  body :: payload

definition c_json :: "json \<Rightarrow> nat \<Rightarrow> response" where
  "c_json obj code = \<lparr>status = code, body = Json obj\<rparr>"

section \<open>Validation schemas\<close>

text \<open>
  The issues that \<^verbatim>\<open>safeParse\<close> of zod reports for the two schemas of the source: a
  value of the wrong type (or absent) at a path, with the type expected and the type
  received, a string shorter than the minimum, a string longer than the maximum. The
  source reads them from \<^verbatim>\<open>parsed.error.errors\<close>, which zod 3 has.
\<close>

datatype zod_issue =
    Invalid_type "string list" string string
  | Too_small "string list" nat
  | Too_big "string list" nat

text \<open>The name zod gives to the type of a value; an absent property is \<^verbatim>\<open>undefined\<close>.\<close>

fun received :: "json option \<Rightarrow> string" where
  "received None = ''undefined''"
| "received (Some JNull) = ''null''"
| "received (Some (JBool b)) = ''boolean''"
| "received (Some (JNum n)) = ''number''"
| "received (Some (JStr s)) = ''string''"
| "received (Some (JArr vs)) = ''array''"
| "received (Some (JObj fs)) = ''object''"

text \<open>
  \<^verbatim>\<open>z.string().min(mn).max(mx)\<close> applied to the property found (or not) at \<open>path\<close>:
  anything but a string is one \<open>Invalid_type\<close> issue; on a string the length checks
  run in the order they were chained.
\<close>

definition z_string :: "nat \<Rightarrow> nat option \<Rightarrow> string list \<Rightarrow> json option \<Rightarrow> zod_issue list + string" where
  "z_string mn mx path v =
     (case v of
        Some (JStr s) \<Rightarrow>
          (let issues =
                 (if length s < mn then [Too_small path mn] else []) @
                 (case mx of
                    Some m \<Rightarrow> (if m < length s then [Too_big path m] else [])
                  | None \<Rightarrow> [])
           in if issues = [] then Inr s else Inl issues)
      | _ \<Rightarrow> Inl [Invalid_type path ''string'' (received v)])"

fun issues_of :: "zod_issue list + 'a \<Rightarrow> zod_issue list" where
  "issues_of (Inl is) = is"
| "issues_of (Inr _) = []"

record post_data =
  title :: string
  content :: string

record ValidateRequest =
  id_field :: string
  salt :: string

text \<open>
  \<^verbatim>\<open>
  const postSchema = z.object({
    title: z.string().min(1).max(100),
    content: z.string().min(1).max(1000),
  })
  \<close>
  \<^verbatim>\<open>z.object\<close> without \<^verbatim>\<open>.strict()\<close>: the input must be a plain object (not null, not
  an array), every key of the shape is parsed and all their issues are collected, and
  keys outside the shape are dropped from the parsed data without an issue.
\<close>

definition postSchema :: "json \<Rightarrow> zod_issue list + post_data" where
  "postSchema v =
     (case v of
        JObj fs \<Rightarrow>
          (let t = z_string 1 (Some 100) [''title''] (map_of fs ''title'');
               c = z_string 1 (Some 1000) [''content''] (map_of fs ''content'')
           in case (t, c) of
                (Inr t', Inr c') \<Rightarrow> Inr \<lparr>title = t', content = c'\<rparr>
              | _ \<Rightarrow> Inl (issues_of t @ issues_of c))
      | _ \<Rightarrow> Inl [Invalid_type [] ''object'' (received (Some v))])"

text \<open>
  \<^verbatim>\<open>
  const validateRequestSchema = z.object({
    id: z.string().min(1),
    salt: z.string().min(6),
  })
  \<close>
\<close>

definition validateRequestSchema :: "json \<Rightarrow> zod_issue list + ValidateRequest" where
  "validateRequestSchema v =
     (case v of
        JObj fs \<Rightarrow>
          (let i = z_string 1 None [''id''] (map_of fs ''id'');
               s = z_string 6 None [''salt''] (map_of fs ''salt'')
           in case (i, s) of
                (Inr i', Inr s') \<Rightarrow> Inr \<lparr>id_field = i', salt = s'\<rparr>
              | _ \<Rightarrow> Inl (issues_of i @ issues_of s))
      | _ \<Rightarrow> Inl [Invalid_type [] ''object'' (received (Some v))])"

text \<open>A bound as zod writes it into a message: decimal, without leading zeros.\<close>

function decimal :: "nat \<Rightarrow> string" where
  "decimal n =
     (if n < 10 then [char_of (48 + n)]
      else decimal (n div 10) @ [char_of (48 + n mod 10)])"
  by pat_completeness auto
termination
  by (relation "measure (\<lambda>n. n)") simp_all

declare decimal.simps [simp del]

text \<open>
  The issue objects of \<^verbatim>\<open>parsed.error.errors\<close>, with the properties and the messages
  of zod 3, in the order zod builds them.
\<close>

fun issue_json :: "zod_issue \<Rightarrow> json" where
  "issue_json (Invalid_type p e r) =
     JObj [(''code'', JStr ''invalid_type''), (''expected'', JStr e), (''received'', JStr r),
           (''path'', JArr (map JStr p)),
           (''message'',
            JStr (if r = ''undefined'' then ''Required''
                  else ''Expected '' @ e @ '', received '' @ r))]"
| "issue_json (Too_small p n) =
     JObj [(''code'', JStr ''too_small''), (''minimum'', JNum (int n)), (''type'', JStr ''string''),
           (''inclusive'', JBool True), (''exact'', JBool False),
           (''message'', JStr (''String must contain at least '' @ decimal n @ '' character(s)'')),
           (''path'', JArr (map JStr p))]"
| "issue_json (Too_big p n) =
     JObj [(''code'', JStr ''too_big''), (''maximum'', JNum (int n)), (''type'', JStr ''string''),
           (''inclusive'', JBool True), (''exact'', JBool False),
           (''message'', JStr (''String must contain at most '' @ decimal n @ '' character(s)'')),
           (''path'', JArr (map JStr p))]"

text \<open>
  The reply of every \<^verbatim>\<open>validator('json', ...)\<close> callback of the source when
  \<^verbatim>\<open>parsed.success\<close> is false.
\<close>

definition invalid_input :: "zod_issue list \<Rightarrow> response" where
  "invalid_input is =
     c_json (JObj [(''ok'', JBool False), (''message'', JStr ''Invalid input''),
                   (''errors'', JArr (map issue_json is))]) 400"

section \<open>The clock: time values and their ISO form\<close>

text \<open>
  \<^verbatim>\<open>new Date().toISOString()\<close>. A clock reading is an ECMAScript time value: the
  milliseconds since 1970-01-01T00:00:00Z, an integer. The functions below are those
  of the ECMAScript specification (Day, DaysInYear, DayFromYear, YearFromTime,
  InLeapYear, DayWithinYear, MonthFromTime, DateFromTime, HourFromTime, MinFromTime,
  SecFromTime, msFromTime), under their names there.
\<close>

definition msPerDay :: int where
  "msPerDay = 86400000"

definition Day :: "int \<Rightarrow> int" where
  "Day t = t div msPerDay"

definition DaysInYear :: "int \<Rightarrow> int" where
  "DaysInYear y =
     (if y mod 4 \<noteq> 0 then 365
      else if y mod 100 \<noteq> 0 then 366
      else if y mod 400 \<noteq> 0 then 365
      else 366)"

definition DayFromYear :: "int \<Rightarrow> int" where
  "DayFromYear y =
     365 * (y - 1970) + (y - 1969) div 4 - (y - 1901) div 100 + (y - 1601) div 400"

text \<open>
  YearFromTime is ``the largest integer \<open>y\<close> such that TimeFromYear(\<open>y\<close>) \<open>\<le>\<close> \<open>t\<close>''.
  It is computed by a search upwards from a year that is not too late
  (\<open>year_guess\<close>), with one step per year still to go (\<open>year_up\<close>); lemma
  \<open>YearFromDay_unique\<close> below shows that the result is that largest integer.
\<close>

definition year_guess :: "int \<Rightarrow> int" where
  "year_guess d = 1970 + (if 0 \<le> d then d div 366 else d div 365)"

primrec year_up :: "nat \<Rightarrow> int \<Rightarrow> int \<Rightarrow> int" where
  "year_up 0 y d = y"
| "year_up (Suc n) y d = (if DayFromYear (y + 1) \<le> d then year_up n (y + 1) d else y)"

definition YearFromDay :: "int \<Rightarrow> int" where
  "YearFromDay d =
     (let y = year_guess d in year_up (nat ((d - DayFromYear y) div 365)) y d)"

definition YearFromTime :: "int \<Rightarrow> int" where
  "YearFromTime t = YearFromDay (Day t)"

definition InLeapYear :: "int \<Rightarrow> int" where
  "InLeapYear t = (if DaysInYear (YearFromTime t) = 366 then 1 else 0)"

definition DayWithinYear :: "int \<Rightarrow> int" where
  "DayWithinYear t = Day t - DayFromYear (YearFromTime t)"

definition MonthFromTime :: "int \<Rightarrow> int" where
  "MonthFromTime t =
     (let d = DayWithinYear t; l = InLeapYear t
      in if d < 31 then 0
         else if d < 59 + l then 1
         else if d < 90 + l then 2
         else if d < 120 + l then 3
         else if d < 151 + l then 4
         else if d < 181 + l then 5
         else if d < 212 + l then 6
         else if d < 243 + l then 7
         else if d < 273 + l then 8
         else if d < 304 + l then 9
         else if d < 334 + l then 10
         else 11)"

definition DateFromTime :: "int \<Rightarrow> int" where
  "DateFromTime t =
     (let d = DayWithinYear t; l = InLeapYear t; m = MonthFromTime t
      in if m = 0 then d + 1
         else if m = 1 then d - 30
         else if m = 2 then d - 58 - l
         else if m = 3 then d - 89 - l
         else if m = 4 then d - 119 - l
         else if m = 5 then d - 150 - l
         else if m = 6 then d - 180 - l
         else if m = 7 then d - 211 - l
         else if m = 8 then d - 242 - l
         else if m = 9 then d - 272 - l
         else if m = 10 then d - 303 - l
         else d - 333 - l)"

definition HourFromTime :: "int \<Rightarrow> int" where
  "HourFromTime t = (t div 3600000) mod 24"

definition MinFromTime :: "int \<Rightarrow> int" where
  "MinFromTime t = (t div 60000) mod 60"

definition SecFromTime :: "int \<Rightarrow> int" where
  "SecFromTime t = (t div 1000) mod 60"

definition msFromTime :: "int \<Rightarrow> int" where
  "msFromTime t = t mod 1000"

text \<open>Decimal digits, and a number written with exactly \<open>w\<close> of them.\<close>

definition digit :: "nat \<Rightarrow> char" where
  "digit n = char_of (48 + n)"

primrec pad :: "nat \<Rightarrow> nat \<Rightarrow> string" where
  "pad 0 n = []"
| "pad (Suc w) n = pad w (n div 10) @ [digit (n mod 10)]"

text \<open>
  The year of \<^verbatim>\<open>toISOString\<close>: four digits from 0 to 9999, otherwise the expanded
  form, a sign and six digits (the years of all time values, which lie within
  8.64e15 milliseconds of the epoch, have at most six).
\<close>

definition year_string :: "int \<Rightarrow> string" where
  "year_string y =
     (if 0 \<le> y \<and> y \<le> 9999 then pad 4 (nat y)
      else (if y < 0 then ''-'' else ''+'') @ pad 6 (nat \<bar>y\<bar>))"

definition toISOString :: "int \<Rightarrow> string" where
  "toISOString t =
     year_string (YearFromTime t) @ ''-'' @ pad 2 (nat (MonthFromTime t + 1)) @ ''-'' @
     pad 2 (nat (DateFromTime t)) @ ''T'' @ pad 2 (nat (HourFromTime t)) @ '':'' @
     pad 2 (nat (MinFromTime t)) @ '':'' @ pad 2 (nat (SecFromTime t)) @ ''.'' @
     pad 3 (nat (msFromTime t)) @ ''Z''"

text \<open>The time values whose year is written with four digits: years 0 to 9999.\<close>

definition four_digit_year :: "int \<Rightarrow> bool" where
  "four_digit_year t = (0 \<le> YearFromTime t \<and> YearFromTime t \<le> 9999)"

section \<open>Random identifiers\<close>

text \<open>
  \<^verbatim>\<open>crypto.randomUUID()\<close>: a version 4 UUID. The platform draws 16 random bytes,
  overwrites the high half of byte 6 with the version, 4, and the two high bits of
  byte 8 with the variant, and writes the bytes in lower-case hexadecimal, grouped
  8-4-4-4-12 with hyphens. The 16 bytes drawn are an argument.
\<close>

definition hex_digit :: "nat \<Rightarrow> char" where
  "hex_digit n = (if n < 10 then char_of (48 + n) else char_of (87 + n))"

definition hex_byte :: "8 word \<Rightarrow> string" where
  "hex_byte b = [hex_digit (unat b div 16), hex_digit (unat b mod 16)]"

definition hex_bytes :: "8 word list \<Rightarrow> string" where
  "hex_bytes bs = concat (map hex_byte bs)"

definition stamp_v4 :: "8 word list \<Rightarrow> 8 word list" where
  "stamp_v4 bs = bs[6 := (bs ! 6 AND 0x0f) OR 0x40, 8 := (bs ! 8 AND 0x3f) OR 0x80]"

definition uuid_text :: "8 word list \<Rightarrow> string" where
  "uuid_text bs =
     hex_bytes (take 4 bs) @ ''-'' @ hex_bytes (take 2 (drop 4 bs)) @ ''-'' @
     hex_bytes (take 2 (drop 6 bs)) @ ''-'' @ hex_bytes (take 2 (drop 8 bs)) @ ''-'' @
     hex_bytes (drop 10 bs)"

definition randomUUID :: "8 word list \<Rightarrow> string" where
  "randomUUID bs = uuid_text (stamp_v4 bs)"

section \<open>Thrown values and stored texts\<close>

text \<open>
  What a \<^verbatim>\<open>catch (error)\<close> block of the source receives: an \<^verbatim>\<open>Error\<close> object with its
  message, or a thrown value that is no \<^verbatim>\<open>Error\<close>. The handlers turn it into text with
  \<^verbatim>\<open>error instanceof Error ? error.message : 'Unknown error'\<close>.
\<close>

datatype thrown = Error string | Not_an_Error

fun error_text :: "thrown \<Rightarrow> string" where
  "error_text (Error m) = m"
| "error_text Not_an_Error = ''Unknown error''"

text \<open>
  A value of the key-value namespace is a string, and the handlers do two things with
  it: \<^verbatim>\<open>if (value)\<close> and \<^verbatim>\<open>JSON.parse(value)\<close>. It is modelled by what they see of it:
  \<open>Stringified v\<close> is the text \<^verbatim>\<open>JSON.stringify(v)\<close>, which \<^verbatim>\<open>JSON.parse\<close> reads
  back as \<open>v\<close>; \<open>Malformed s m\<close> is the string \<open>s\<close>, no JSON text, on which
  \<^verbatim>\<open>JSON.parse\<close> throws a SyntaxError with message \<open>m\<close>.
\<close>

datatype kv_text = Stringified json | Malformed string string

definition JSON_stringify :: "json \<Rightarrow> kv_text" where
  "JSON_stringify v = Stringified v"

fun JSON_parse :: "kv_text \<Rightarrow> thrown + json" where
  "JSON_parse (Stringified v) = Inr v"
| "JSON_parse (Malformed s m) = Inl (Error m)"

text \<open>\<^verbatim>\<open>if (value)\<close> on a string: every string but the empty one.\<close>

fun truthy :: "kv_text \<Rightarrow> bool" where
  "truthy (Stringified v) = True"
| "truthy (Malformed s m) = (s \<noteq> [])"

text \<open>
  \<^verbatim>\<open>data.id\<close> on a parsed value: a TypeError on \<^verbatim>\<open>null\<close>, the property (or
  \<^verbatim>\<open>undefined\<close>, here \<open>None\<close>) on an object, \<^verbatim>\<open>undefined\<close> on every other value.
\<close>

fun property :: "json \<Rightarrow> string \<Rightarrow> thrown + json option" where
  "property JNull k = Inl (Error (''Cannot read properties of null (reading '' @ [CHR 0x27] @ k @ [CHR 0x27] @ '')''))"
| "property (JObj fs) k = Inr (map_of fs k)"
| "property v k = Inr None"

text \<open>
  An object literal as \<^verbatim>\<open>c.json\<close> serialises it: a property whose value is
  \<^verbatim>\<open>undefined\<close> is left out.
\<close>

fun object_literal :: "(string \<times> json option) list \<Rightarrow> (string \<times> json) list" where
  "object_literal [] = []"
| "object_literal ((k, None) # fs) = object_literal fs"
| "object_literal ((k, Some v) # fs) = (k, v) # object_literal fs"

section \<open>The key-value namespace\<close>

text \<open>
  The binding \<^verbatim>\<open>c.env.RCX_VALIDATOR: KVNamespace\<close> is a parameter of the handlers: the
  four operations they call, over a state \<open>'s\<close> of the namespace. Each may throw.
  \<open>kv_list p\<close> stands for \<^verbatim>\<open>list({ prefix: p })\<close> and gives the names of
  \<^verbatim>\<open>list.keys\<close> in the order returned. A \<^verbatim>\<open>delete\<close> that throws does so at a
  moment, a natural number: the handler starts several at once and reports the throw
  that comes first.
\<close>

record 's KVNamespace =
  kv_put :: "string \<Rightarrow> kv_text \<Rightarrow> 's \<Rightarrow> thrown + 's"
  kv_get :: "string \<Rightarrow> 's \<Rightarrow> thrown + kv_text option"
  kv_list :: "string \<Rightarrow> 's \<Rightarrow> thrown + string list"
  kv_delete :: "string \<Rightarrow> 's \<Rightarrow> (thrown \<times> nat) + 's"

type_synonym store = "(string \<times> kv_text) list"

text \<open>
  Modelled from the spec: the key-value store collaborator, an external service of
  which the repository holds no code. The spec describes it as a ``durable mapping
  from string key to string value, supporting put, get, prefix-list, and delete'',
  with \<^verbatim>\<open>list({prefix})\<close> giving ordered keys; the order is taken to be the
  lexicographic one, which the spec's invariant on composite keys relies on. The
  state is an association list, read as the map \<^const>\<open>map_of\<close> makes of it; no
  operation throws.
\<close>

definition store_put :: "string \<Rightarrow> kv_text \<Rightarrow> store \<Rightarrow> thrown + store" where
  "store_put k v s = Inr (AList.update k v s)"

definition store_get :: "string \<Rightarrow> store \<Rightarrow> thrown + kv_text option" where
  "store_get k s = Inr (map_of s k)"

definition store_list :: "string \<Rightarrow> store \<Rightarrow> thrown + string list" where
  "store_list p s = Inr (sort (remdups (filter (prefix p) (map fst s))))"

definition store_delete :: "string \<Rightarrow> store \<Rightarrow> (thrown \<times> nat) + store" where
  "store_delete k s = Inr (AList.delete k s)"

text \<open>
  Modelled from the spec: the collaborator as a namespace, made of the four
  operations above.
\<close>

definition mem_kv :: "store KVNamespace" where
  "mem_kv = \<lparr>kv_put = store_put, kv_get = store_get, kv_list = store_list,
            kv_delete = store_delete\<rparr>"

text \<open>A namespace that is out of service: every operation throws the given value.\<close>

definition down_kv :: "thrown \<Rightarrow> 's KVNamespace" where
  "down_kv e = \<lparr>kv_put = (\<lambda>k v s. Inl e), kv_get = (\<lambda>k s. Inl e),
               kv_list = (\<lambda>p s. Inl e), kv_delete = (\<lambda>k s. Inl (e, 0))\<rparr>"

text \<open>
  A namespace whose listing names keys that a read does not find any more, as a
  listing that runs behind the deletions does.
\<close>

definition stale_kv :: "string list \<Rightarrow> 's KVNamespace" where
  "stale_kv ks = \<lparr>kv_put = (\<lambda>k v s. Inr s), kv_get = (\<lambda>k s. Inr None),
                  kv_list = (\<lambda>p s. Inr ks), kv_delete = (\<lambda>k s. Inr s)\<rparr>"

section \<open>Post handlers\<close>

text \<open>
  Every handler takes the state \<open>s\<close> of the key-value namespace and returns it with
  the reply, so that a handler without storage calls returns \<open>s\<close> as it got it. What
  the platform supplies during a request is an argument too: the random bytes that
  \<^verbatim>\<open>crypto.randomUUID()\<close> draws and the clock readings of the successive
  \<^verbatim>\<open>new Date()\<close>, in the order the source takes them.

  \<^verbatim>\<open>app.post('/posts', validator('json', ...), async (c) => ...)\<close>: the validator
  callback replies 400 or hands \<^verbatim>\<open>parsed.data\<close> to the handler, which builds
  \<^verbatim>\<open>{ id, ...data, createdAt: new Date().toISOString(), updatedAt: new Date().toISOString() }\<close>
  and returns it with status 201.
\<close>

definition post_record :: "string \<Rightarrow> post_data \<Rightarrow> int \<Rightarrow> int \<Rightarrow> json" where
  "post_record pid data t1 t2 =
     JObj [(''id'', JStr pid), (''title'', JStr (title data)), (''content'', JStr (content data)),
           (''createdAt'', JStr (toISOString t1)), (''updatedAt'', JStr (toISOString t2))]"

definition post_posts :: "json \<Rightarrow> 8 word list \<Rightarrow> int \<Rightarrow> int \<Rightarrow> 's \<Rightarrow> response \<times> 's" where
  "post_posts v rnd t1 t2 s =
     (case postSchema v of
        Inl is \<Rightarrow> (invalid_input is, s)
      | Inr data \<Rightarrow>
          (let uuid = randomUUID rnd
           in (c_json (JObj [(''ok'', JBool True), (''post'', post_record uuid data t1 t2)]) 201, s)))"

text \<open>
  \<^verbatim>\<open>app.get('/posts', ...)\<close> and \<^verbatim>\<open>app.get('/posts/:id', ...)\<close>: the \<^verbatim>\<open>try\<close> block only
  returns a constant reply.
\<close>

definition get_posts :: "'s \<Rightarrow> response \<times> 's" where
  "get_posts s = (c_json (JObj [(''ok'', JBool True), (''posts'', JArr [])]) 200, s)"

definition get_posts_id :: "string \<Rightarrow> 's \<Rightarrow> response \<times> 's" where
  "get_posts_id pid s = (c_json (JObj [(''ok'', JBool True), (''post'', JNull)]) 200, s)"

text \<open>\<^verbatim>\<open>app.put('/posts/:id', validator('json', ...), ...)\<close> and \<^verbatim>\<open>app.delete('/posts/:id', ...)\<close>.\<close>

definition put_posts_id :: "string \<Rightarrow> json \<Rightarrow> int \<Rightarrow> int \<Rightarrow> 's \<Rightarrow> response \<times> 's" where
  "put_posts_id pid v t1 t2 s =
     (case postSchema v of
        Inl is \<Rightarrow> (invalid_input is, s)
      | Inr data \<Rightarrow>
          (c_json (JObj [(''ok'', JBool True), (''post'', post_record pid data t1 t2)]) 200, s))"

definition delete_posts_id :: "string \<Rightarrow> 's \<Rightarrow> response \<times> 's" where
  "delete_posts_id pid s =
     (c_json (JObj [(''ok'', JBool True), (''message'', JStr ''Post deleted successfully'')]) 200, s)"

definition get_health :: "'s \<Rightarrow> response \<times> 's" where
  "get_health s =
     (c_json (JObj [(''ok'', JBool True), (''status'', JStr ''healthy''),
                    (''version'', JStr ''1.0.0'')]) 200, s)"

section \<open>Validation-request handlers\<close>

text \<open>\<^verbatim>\<open>`${org}:${data.id}:${timestamp}`\<close>\<close>

definition composite_key :: "string \<Rightarrow> string \<Rightarrow> string \<Rightarrow> string" where
  "composite_key org i timestamp = org @ '':'' @ i @ '':'' @ timestamp"

text \<open>\<^verbatim>\<open>{ org, ...data, timestamp }\<close>, the object that is stored.\<close>

definition stored_record :: "string \<Rightarrow> ValidateRequest \<Rightarrow> string \<Rightarrow> json" where
  "stored_record org data timestamp =
     JObj [(''org'', JStr org), (''id'', JStr (id_field data)), (''salt'', JStr (salt data)),
           (''timestamp'', JStr timestamp)]"

text \<open>\<^verbatim>\<open>c.json({ id: data.id, salt: data.salt })\<close> on the validated payload.\<close>

definition echo :: "ValidateRequest \<Rightarrow> response" where
  "echo data = c_json (JObj [(''id'', JStr (id_field data)), (''salt'', JStr (salt data))]) 200"

text \<open>The reply of the \<^verbatim>\<open>catch\<close> blocks, and the 404 reply of the GET and DELETE handlers.\<close>

definition failed :: "string \<Rightarrow> thrown \<Rightarrow> response" where
  "failed msg e =
     c_json (JObj [(''ok'', JBool False), (''message'', JStr msg),
                   (''errors'', JArr [JStr (error_text e)])]) 500"

definition no_data :: "string \<Rightarrow> response" where
  "no_data org =
     c_json (JObj [(''ok'', JBool False),
                   (''message'', JStr (''No data found for organization: '' @ org)),
                   (''errors'', JArr [JStr ''Organization not found''])]) 404"

text \<open>
  \<^verbatim>\<open>app.post('/api/:org/req-validate', ...)\<close> of \<^verbatim>\<open>src/unnamed/part_000\<close>. When
  \<^verbatim>\<open>put\<close> throws, the state is taken to be what it was.
\<close>

definition post_req_validate ::
  "'s KVNamespace \<Rightarrow> string \<Rightarrow> json \<Rightarrow> int \<Rightarrow> 's \<Rightarrow> response \<times> 's" where
  "post_req_validate kv org v now s =
     (case validateRequestSchema v of
        Inl is \<Rightarrow> (invalid_input is, s)
      | Inr data \<Rightarrow>
          (let timestamp = toISOString now;
               key = composite_key org (id_field data) timestamp
           in case kv_put kv key (JSON_stringify (stored_record org data timestamp)) s of
                Inl e \<Rightarrow> (failed ''Validation failed'' e, s)
              | Inr s' \<Rightarrow> (echo data, s')))"

text \<open>
  \<^verbatim>\<open>app.get('/api/:org/req-validate', ...)\<close>: both \<^verbatim>\<open>if\<close>s fall through to the 404
  reply, every throw inside the \<^verbatim>\<open>try\<close> goes to the \<^verbatim>\<open>catch\<close>.
\<close>

definition get_req_validate :: "'s KVNamespace \<Rightarrow> string \<Rightarrow> 's \<Rightarrow> response \<times> 's" where
  "get_req_validate kv org s =
     (case kv_list kv (org @ '':'') s of
        Inl e \<Rightarrow> (failed ''Failed to fetch request'' e, s)
      | Inr keys \<Rightarrow>
          (if 0 < length keys then
             (case kv_get kv (keys ! (length keys - 1)) s of
                Inl e \<Rightarrow> (failed ''Failed to fetch request'' e, s)
              | Inr None \<Rightarrow> (no_data org, s)
              | Inr (Some val) \<Rightarrow>
                  (if truthy val then
                     (case JSON_parse val of
                        Inl e \<Rightarrow> (failed ''Failed to fetch request'' e, s)
                      | Inr data \<Rightarrow>
                          (case property data ''id'' of
                             Inl e \<Rightarrow> (failed ''Failed to fetch request'' e, s)
                           | Inr i \<Rightarrow>
                               (case property data ''salt'' of
                                  Inl e \<Rightarrow> (failed ''Failed to fetch request'' e, s)
                                | Inr sa \<Rightarrow>
                                    (c_json (JObj (object_literal [(''id'', i), (''salt'', sa)])) 200, s))))
                   else (no_data org, s)))
           else (no_data org, s)))"

text \<open>
  \<^verbatim>\<open>Promise.all(list.keys.map(key => c.env.RCX_VALIDATOR.delete(key.name)))\<close>: every
  delete is started, in the order of the keys, so a throwing one does not keep the
  others from running. \<open>delete_all\<close> gives the throws with their moments and the
  state after the deletes that did not throw; \<^verbatim>\<open>Promise.all\<close> rejects with the throw
  of the earliest moment (of two at the same moment, the one started first).
\<close>

fun delete_all :: "'s KVNamespace \<Rightarrow> string list \<Rightarrow> 's \<Rightarrow> (thrown \<times> nat) list \<times> 's" where
  "delete_all kv [] s = ([], s)"
| "delete_all kv (k # ks) s =
     (case kv_delete kv k s of
        Inl r \<Rightarrow> (r # fst (delete_all kv ks s), snd (delete_all kv ks s))
      | Inr s' \<Rightarrow> delete_all kv ks s')"

fun earlier :: "thrown \<times> nat \<Rightarrow> thrown \<times> nat \<Rightarrow> thrown \<times> nat" where
  "earlier (e, t) (e', t') = (if t' < t then (e', t') else (e, t))"

fun first_rejection :: "(thrown \<times> nat) list \<Rightarrow> thrown option" where
  "first_rejection [] = None"
| "first_rejection (r # rs) = Some (fst (foldl earlier r rs))"

text \<open>\<^verbatim>\<open>app.delete('/api/:org/req-validate', validator('json', ...), ...)\<close>\<close>

definition delete_req_validate ::
  "'s KVNamespace \<Rightarrow> string \<Rightarrow> json \<Rightarrow> 's \<Rightarrow> response \<times> 's" where
  "delete_req_validate kv org v s =
     (case validateRequestSchema v of
        Inl is \<Rightarrow> (invalid_input is, s)
      | Inr data \<Rightarrow>
          (case kv_list kv (org @ '':'' @ id_field data @ '':'') s of
             Inl e \<Rightarrow> (failed ''Failed to delete request'' e, s)
           | Inr keys \<Rightarrow>
               (if 0 < length keys then
                  (case delete_all kv keys s of
                     (rs, s') \<Rightarrow>
                       (case first_rejection rs of
                          Some e \<Rightarrow> (failed ''Failed to delete request'' e, s')
                        | None \<Rightarrow> (echo data, s')))
                else (no_data org, s))))"

text \<open>
  \<^verbatim>\<open>app.post('/api/:org/req-validate', ...)\<close> of \<^verbatim>\<open>src/src/index.ts\<close>: ``Simply return
  the validated request data''.
\<close>

definition post_req_validate_index :: "json \<Rightarrow> 's \<Rightarrow> response \<times> 's" where
  "post_req_validate_index v s =
     (case validateRequestSchema v of
        Inl is \<Rightarrow> (invalid_input is, s)
      | Inr data \<Rightarrow> (echo data, s))"

section \<open>The two route tables\<close>

text \<open>
  A request is its method, the segments of its path and its JSON body, already
  parsed. \<open>platform\<close> holds what the platform supplies while the request is
  handled. A path parameter (\<^verbatim>\<open>:id\<close>, \<^verbatim>\<open>:org\<close>) matches one segment that is not
  empty; a request that no route matches gets the router's own reply, the text
  \<^verbatim>\<open>404 Not Found\<close>.
\<close>

datatype verb = GET | POST | PUT | DELETE

record request =
  req_method :: verb
  req_path :: "string list"
  json_body :: json

record platform =
  random_bytes :: "8 word list"
  first_now :: int
  second_now :: int

definition route_missing :: response where
  "route_missing = \<lparr>status = 404, body = Text ''404 Not Found''\<rparr>"

definition posts_id_route :: "string list \<Rightarrow> string option" where
  "posts_id_route p =
     (case p of
        [a, pid] \<Rightarrow> (if a = ''posts'' \<and> pid \<noteq> [] then Some pid else None)
      | _ \<Rightarrow> None)"

definition req_validate_route :: "string list \<Rightarrow> string option" where
  "req_validate_route p =
     (case p of
        [a, org, b] \<Rightarrow>
          (if a = ''api'' \<and> org \<noteq> [] \<and> b = ''req-validate'' then Some org else None)
      | _ \<Rightarrow> None)"

text \<open>The routes that \<^verbatim>\<open>src/src/index.ts\<close> and \<^verbatim>\<open>src/unnamed/part_000\<close> share.\<close>

definition shared_routes :: "platform \<Rightarrow> request \<Rightarrow> 's \<Rightarrow> (response \<times> 's) option" where
  "shared_routes pf r s =
     (if req_path r = [''posts''] \<and> req_method r = POST then
        Some (post_posts (json_body r) (random_bytes pf) (first_now pf) (second_now pf) s)
      else if req_path r = [''posts''] \<and> req_method r = GET then Some (get_posts s)
      else if req_path r = [''api'', ''health''] \<and> req_method r = GET then Some (get_health s)
      else
        (case posts_id_route (req_path r) of
           Some pid \<Rightarrow>
             (case req_method r of
                GET \<Rightarrow> Some (get_posts_id pid s)
              | PUT \<Rightarrow> Some (put_posts_id pid (json_body r) (first_now pf) (second_now pf) s)
              | DELETE \<Rightarrow> Some (delete_posts_id pid s)
              | POST \<Rightarrow> None)
         | None \<Rightarrow> None))"

text \<open>\<^verbatim>\<open>src/src/index.ts\<close>: the shared routes and POST \<^verbatim>\<open>/api/:org/req-validate\<close>.\<close>

definition app_index :: "platform \<Rightarrow> request \<Rightarrow> 's \<Rightarrow> response \<times> 's" where
  "app_index pf r s =
     (case shared_routes pf r s of
        Some out \<Rightarrow> out
      | None \<Rightarrow>
          (case req_validate_route (req_path r) of
             Some org \<Rightarrow>
               (case req_method r of
                  POST \<Rightarrow> post_req_validate_index (json_body r) s
                | _ \<Rightarrow> (route_missing, s))
           | None \<Rightarrow> (route_missing, s)))"

text \<open>
  \<^verbatim>\<open>src/unnamed/part_000\<close>: the shared routes and POST, GET and DELETE
  \<^verbatim>\<open>/api/:org/req-validate\<close> on the namespace.
\<close>

definition app_kv :: "'s KVNamespace \<Rightarrow> platform \<Rightarrow> request \<Rightarrow> 's \<Rightarrow> response \<times> 's" where
  "app_kv kv pf r s =
     (case shared_routes pf r s of
        Some out \<Rightarrow> out
      | None \<Rightarrow>
          (case req_validate_route (req_path r) of
             Some org \<Rightarrow>
               (case req_method r of
                  POST \<Rightarrow> post_req_validate kv org (json_body r) (first_now pf) s
                | GET \<Rightarrow> get_req_validate kv org s
                | DELETE \<Rightarrow> delete_req_validate kv org (json_body r) s
                | PUT \<Rightarrow> (route_missing, s))
           | None \<Rightarrow> (route_missing, s)))"

section \<open>Facts about time values\<close>

lemma div_step:
  fixes a n :: int
  assumes "0 < n"
  shows "(a + 1) div n = a div n + (if (a + 1) mod n = 0 then 1 else 0)"
proof (cases "a mod n + 1 < n")
  case True
  have "a + 1 = n * (a div n) + (a mod n + 1)" by simp
  moreover have "0 \<le> a mod n + 1" using assms by (simp add: add_nonneg_nonneg)
  ultimately have "(a + 1) div n = a div n" and "(a + 1) mod n = a mod n + 1"
    using True int_div_pos_eq [of "a + 1" n "a div n" "a mod n + 1"]
      int_mod_pos_eq [of "a + 1" n "a div n" "a mod n + 1"] by simp_all
  moreover have "0 \<le> a mod n" using assms by simp
  ultimately show ?thesis by simp
next
  case False
  moreover have "a mod n < n" using assms by simp
  ultimately have r: "a mod n + 1 = n" by simp
  have "a + 1 = n * (a div n) + (a mod n + 1)" by simp
  then have "a + 1 = n * (a div n + 1) + 0" unfolding r by (simp add: algebra_simps)
  then have "(a + 1) div n = a div n + 1" and "(a + 1) mod n = 0"
    using assms int_div_pos_eq [of "a + 1" n "a div n + 1" 0]
      int_mod_pos_eq [of "a + 1" n "a div n + 1" 0] by simp_all
  then show ?thesis by simp
qed

lemma mod_shift: "n dvd k \<Longrightarrow> ((y - k) mod n = 0) = (y mod n = 0)" for y :: int
  by (simp add: mod_eq_0_iff_dvd dvd_diff_left_iff)

lemma div4_step: "(y - 1968) div 4 = (y - 1969) div 4 + (if y mod 4 = 0 then 1 else 0)" for y :: int
  using div_step [of 4 "y - 1969"] mod_shift [of 4 1968 y] by simp

lemma div100_step: "(y - 1900) div 100 = (y - 1901) div 100 + (if y mod 100 = 0 then 1 else 0)" for y :: int
  using div_step [of 100 "y - 1901"] mod_shift [of 100 1900 y] by simp

lemma div400_step: "(y - 1600) div 400 = (y - 1601) div 400 + (if y mod 400 = 0 then 1 else 0)" for y :: int
  using div_step [of 400 "y - 1601"] mod_shift [of 400 1600 y] by simp

lemma mod_100_4: "y mod 100 = 0 \<Longrightarrow> y mod 4 = 0" for y :: int
proof -
  assume "y mod 100 = 0"
  then have "100 dvd y" by (simp add: mod_eq_0_iff_dvd)
  moreover have "(4::int) dvd 100" by simp
  ultimately have "4 dvd y" by (rule dvd_trans [rotated])
  then show ?thesis by (simp add: mod_eq_0_iff_dvd)
qed

lemma mod_400_100: "y mod 400 = 0 \<Longrightarrow> y mod 100 = 0" for y :: int
proof -
  assume "y mod 400 = 0"
  then have "400 dvd y" by (simp add: mod_eq_0_iff_dvd)
  moreover have "(100::int) dvd 400" by simp
  ultimately have "100 dvd y" by (rule dvd_trans [rotated])
  then show ?thesis by (simp add: mod_eq_0_iff_dvd)
qed

lemma DayFromYear_Suc: "DayFromYear (y + 1) = DayFromYear y + DaysInYear y"
proof -
  have "DayFromYear (y + 1) =
      365 * (y - 1969) + (y - 1968) div 4 - (y - 1900) div 100 + (y - 1600) div 400"
    by (simp add: DayFromYear_def)
  also have "\<dots> = DayFromYear y + DaysInYear y"
    unfolding div4_step div100_step div400_step DayFromYear_def DaysInYear_def
    using mod_100_4 [of y] mod_400_100 [of y] by auto
  finally show ?thesis .
qed

lemma DayFromYear_less: "DayFromYear y < DayFromYear (y + 1)"
  by (simp add: DayFromYear_Suc DaysInYear_def)

lemma DayFromYear_1970: "DayFromYear 1970 = 0"
  by (simp add: DayFromYear_def)

lemma DayFromYear_upper: "0 \<le> k \<Longrightarrow> DayFromYear (1970 + k) \<le> 366 * k"
proof (induction k rule: int_ge_induct)
  case base
  then show ?case by (simp add: DayFromYear_1970)
next
  case (step i)
  have "DayFromYear (1970 + (i + 1)) = DayFromYear (1970 + i) + DaysInYear (1970 + i)"
    using DayFromYear_Suc [of "1970 + i"] by (simp add: add.assoc)
  moreover have "DaysInYear (1970 + i) \<le> 366" by (simp add: DaysInYear_def)
  ultimately show ?case using step.IH by simp
qed

lemma DayFromYear_lower: "k \<le> 0 \<Longrightarrow> DayFromYear (1970 + k) \<le> 365 * k"
proof (induction k rule: int_le_induct)
  case base
  then show ?case by (simp add: DayFromYear_1970)
next
  case (step i)
  have "DayFromYear (1970 + i) = DayFromYear (1970 + (i - 1)) + DaysInYear (1970 + (i - 1))"
    using DayFromYear_Suc [of "1970 + (i - 1)"] by simp
  moreover have "365 \<le> DaysInYear (1970 + (i - 1))" by (simp add: DaysInYear_def)
  ultimately show ?case using step.IH by simp
qed

lemma year_guess_le: "DayFromYear (year_guess d) \<le> d"
proof (cases "0 \<le> d")
  case True
  then have "0 \<le> d div 366" by simp
  then have "DayFromYear (1970 + d div 366) \<le> 366 * (d div 366)" by (rule DayFromYear_upper)
  also have "\<dots> \<le> d" by linarith
  finally show ?thesis using True by (simp add: year_guess_def)
next
  case False
  then have "d div 365 \<le> 0" by linarith
  then have "DayFromYear (1970 + d div 365) \<le> 365 * (d div 365)" by (rule DayFromYear_lower)
  also have "\<dots> \<le> d" by linarith
  finally show ?thesis using False by (simp add: year_guess_def)
qed

lemma year_up_bounds:
  "DayFromYear y \<le> d \<Longrightarrow> (d - DayFromYear y) div 365 \<le> int n \<Longrightarrow>
   DayFromYear (year_up n y d) \<le> d \<and> d < DayFromYear (year_up n y d + 1)"
proof (induction n arbitrary: y)
  case 0
  then have "d - DayFromYear y < 365" by linarith
  moreover have "365 \<le> DaysInYear y" by (simp add: DaysInYear_def)
  ultimately have "d < DayFromYear (y + 1)" by (simp add: DayFromYear_Suc)
  with "0.prems"(1) show ?case by simp
next
  case (Suc n)
  show ?case
  proof (cases "DayFromYear (y + 1) \<le> d")
    case True
    have "365 \<le> DaysInYear y" by (simp add: DaysInYear_def)
    then have "d - DayFromYear (y + 1) \<le> d - DayFromYear y - 365"
      by (simp add: DayFromYear_Suc)
    then have "(d - DayFromYear (y + 1)) div 365 \<le> (d - DayFromYear y - 365) div 365"
      by (simp add: zdiv_mono1)
    also have "\<dots> = (d - DayFromYear y) div 365 - 1" by simp
    finally have "(d - DayFromYear (y + 1)) div 365 \<le> int n" using Suc.prems(2) by simp
    with Suc.IH [OF True] True show ?thesis by simp
  next
    case False
    with Suc.prems(1) show ?thesis by simp
  qed
qed

lemma YearFromDay_bounds:
  "DayFromYear (YearFromDay d) \<le> d" "d < DayFromYear (YearFromDay d + 1)"
proof -
  have "0 \<le> (d - DayFromYear (year_guess d)) div 365"
    using year_guess_le [of d] by simp
  then have "(d - DayFromYear (year_guess d)) div 365
      \<le> int (nat ((d - DayFromYear (year_guess d)) div 365))" by simp
  from year_up_bounds [OF year_guess_le this]
  show "DayFromYear (YearFromDay d) \<le> d" "d < DayFromYear (YearFromDay d + 1)"
    by (simp_all add: YearFromDay_def Let_def)
qed

lemma DayFromYear_mono: "y \<le> z \<Longrightarrow> DayFromYear y \<le> DayFromYear z"
proof (induction z rule: int_ge_induct)
  case base
  then show ?case by simp
next
  case (step i)
  then show ?case using DayFromYear_less [of i] by simp
qed

lemma YearFromDay_unique:
  assumes "DayFromYear y \<le> d" "d < DayFromYear (y + 1)"
  shows "YearFromDay d = y"
proof (rule ccontr)
  assume ne: "YearFromDay d \<noteq> y"
  let ?z = "YearFromDay d"
  show False
  proof (cases "?z < y")
    case True
    then have "DayFromYear (?z + 1) \<le> DayFromYear y" by (intro DayFromYear_mono) simp
    with assms(1) YearFromDay_bounds(2) [of d] show False by simp
  next
    case False
    with ne have "y + 1 \<le> ?z" by simp
    then have "DayFromYear (y + 1) \<le> DayFromYear ?z" by (rule DayFromYear_mono)
    with assms(2) YearFromDay_bounds(1) [of d] show False by simp
  qed
qed

lemma YearFromDay_mono: "d \<le> e \<Longrightarrow> YearFromDay d \<le> YearFromDay e"
proof (rule ccontr)
  assume le: "d \<le> e" and "\<not> YearFromDay d \<le> YearFromDay e"
  then have "YearFromDay e + 1 \<le> YearFromDay d" by simp
  then have "DayFromYear (YearFromDay e + 1) \<le> DayFromYear (YearFromDay d)"
    by (rule DayFromYear_mono)
  with YearFromDay_bounds(2) [of e] YearFromDay_bounds(1) [of d] le show False by simp
qed

lemma of_char_digit: "n < 10 \<Longrightarrow> (of_char (digit n) :: nat) = 48 + n"
  by (simp add: digit_def)

lemma digit_less: "i < 10 \<Longrightarrow> j < 10 \<Longrightarrow> (digit i < digit j) = (i < j)"
  unfolding less_char_def by (simp only: of_char_digit nat_add_left_cancel_less)

lemma digit_eq:
  assumes "i < 10" "j < 10"
  shows "(digit i = digit j) = (i = j)"
proof
  assume "digit i = digit j"
  then have "(of_char (digit i) :: nat) = of_char (digit j)" by (rule arg_cong)
  then have "48 + i = 48 + j" by (simp only: of_char_digit [OF assms(1)] of_char_digit [OF assms(2)])
  then show "i = j" by (simp only: add_left_cancel)
next
  assume "i = j"
  then show "digit i = digit j" by (rule arg_cong)
qed

lemma length_pad [simp]: "length (pad w n) = w"
  by (induction w arbitrary: n) simp_all

lemma less_append_same_length:
  "length xs = length ys \<Longrightarrow> (xs @ us < ys @ vs) = (xs < ys \<or> xs = ys \<and> us < vs)"
  for xs ys :: "'a::linorder list"
  by (induction xs ys rule: list_induct2) auto

lemma pad_eq: "a < 10 ^ w \<Longrightarrow> b < 10 ^ w \<Longrightarrow> (pad w a = pad w b) = (a = b)"
proof (induction w arbitrary: a b)
  case 0
  then show ?case by simp
next
  case (Suc w)
  then have "a div 10 < 10 ^ w" "b div 10 < 10 ^ w"
    by (simp_all add: less_mult_imp_div_less)
  then have "(pad w (a div 10) = pad w (b div 10)) = (a div 10 = b div 10)" by (rule Suc.IH)
  moreover have "(a = b) = (a div 10 = b div 10 \<and> a mod 10 = b mod 10)"
    by (metis div_mult_mod_eq)
  ultimately show ?case by (simp add: digit_eq)
qed

lemma pad_less: "a < 10 ^ w \<Longrightarrow> b < 10 ^ w \<Longrightarrow> (pad w a < pad w b) = (a < b)"
proof (induction w arbitrary: a b)
  case 0
  then show ?case by simp
next
  case (Suc w)
  then have small: "a div 10 < 10 ^ w" "b div 10 < 10 ^ w"
    by (simp_all add: less_mult_imp_div_less)
  define qa ra qb rb where "qa = a div 10" and "ra = a mod 10" and "qb = b div 10" and "rb = b mod 10"
  have "a = 10 * qa + ra" "b = 10 * qb + rb" "ra < 10" "rb < 10"
    by (simp_all add: qa_def ra_def qb_def rb_def)
  then have "(a < b) = (qa < qb \<or> qa = qb \<and> ra < rb)"
    by linarith
  then have "(a < b) = (a div 10 < b div 10 \<or> a div 10 = b div 10 \<and> a mod 10 < b mod 10)"
    by (simp add: qa_def ra_def qb_def rb_def)
  then show ?case
    by (simp add: less_append_same_length Suc.IH [OF small] pad_eq [OF small] digit_less)
qed

lemma div_mod_lex:
  fixes a b n :: int
  assumes "0 < n" "a < b"
  shows "a div n < b div n \<or> a div n = b div n \<and> a mod n < b mod n"
proof -
  have le: "a div n \<le> b div n" using assms by (simp add: zdiv_mono1)
  have "a = n * (a div n) + a mod n" "b = n * (b div n) + b mod n" by simp_all
  then have "a div n = b div n \<Longrightarrow> a mod n < b mod n" using assms(2) by (metis add_less_cancel_left)
  with le show ?thesis by linarith
qed

lemma time_fields_lex:
  assumes "t1 < t2"
  shows "Day t1 < Day t2 \<or> Day t1 = Day t2 \<and>
    (HourFromTime t1 < HourFromTime t2 \<or> HourFromTime t1 = HourFromTime t2 \<and>
    (MinFromTime t1 < MinFromTime t2 \<or> MinFromTime t1 = MinFromTime t2 \<and>
    (SecFromTime t1 < SecFromTime t2 \<or> SecFromTime t1 = SecFromTime t2 \<and>
     msFromTime t1 < msFromTime t2)))"
proof -
  define S where "S t = t div 1000" for t :: int
  define M where "M t = t div 60000" for t :: int
  define H where "H t = t div 3600000" for t :: int
  have M: "M t = S t div 60" for t
    using zdiv_zmult2_eq [of 60 t 1000] by (simp add: M_def S_def)
  have H: "H t = M t div 60" for t
    using zdiv_zmult2_eq [of 60 t 60000] by (simp add: M_def H_def)
  have D: "Day t = H t div 24" for t
    using zdiv_zmult2_eq [of 24 t 3600000] by (simp add: Day_def msPerDay_def H_def)
  have a: "S t1 < S t2 \<or> S t1 = S t2 \<and> msFromTime t1 < msFromTime t2"
    using div_mod_lex [of 1000 t1 t2] assms by (simp add: S_def msFromTime_def)
  have b: "S t1 < S t2 \<Longrightarrow> M t1 < M t2 \<or> M t1 = M t2 \<and> SecFromTime t1 < SecFromTime t2"
    using div_mod_lex [of 60 "S t1" "S t2"] by (simp add: M SecFromTime_def S_def)
  have c: "M t1 < M t2 \<Longrightarrow> H t1 < H t2 \<or> H t1 = H t2 \<and> MinFromTime t1 < MinFromTime t2"
    using div_mod_lex [of 60 "M t1" "M t2"] by (simp add: H MinFromTime_def M_def)
  have d: "H t1 < H t2 \<Longrightarrow> Day t1 < Day t2 \<or> Day t1 = Day t2 \<and> HourFromTime t1 < HourFromTime t2"
    using div_mod_lex [of 24 "H t1" "H t2"] by (simp add: D HourFromTime_def H_def)
  have a': "S t1 = S t2 \<Longrightarrow> M t1 = M t2 \<and> SecFromTime t1 = SecFromTime t2"
    by (simp add: M SecFromTime_def S_def)
  have b': "M t1 = M t2 \<Longrightarrow> H t1 = H t2 \<and> MinFromTime t1 = MinFromTime t2"
    by (simp add: H MinFromTime_def M_def)
  have c': "H t1 = H t2 \<Longrightarrow> Day t1 = Day t2 \<and> HourFromTime t1 = HourFromTime t2"
    by (simp add: D HourFromTime_def H_def)
  from a b c d a' b' c' show ?thesis by blast
qed

lemma InLeapYear_cases: "InLeapYear t = 0 \<or> InLeapYear t = 1"
  by (simp add: InLeapYear_def)

lemma DayWithinYear_bounds: "0 \<le> DayWithinYear t" "DayWithinYear t < 365 + InLeapYear t"
proof -
  show "0 \<le> DayWithinYear t"
    using YearFromDay_bounds(1) [of "Day t"] by (simp add: DayWithinYear_def YearFromTime_def)
  have "Day t < DayFromYear (YearFromTime t) + DaysInYear (YearFromTime t)"
    using YearFromDay_bounds(2) [of "Day t"] by (simp add: YearFromTime_def DayFromYear_Suc)
  moreover have "DaysInYear (YearFromTime t) = 365 + InLeapYear t"
    by (simp add: InLeapYear_def DaysInYear_def)
  ultimately show "DayWithinYear t < 365 + InLeapYear t" by (simp add: DayWithinYear_def)
qed

lemma MonthFromTime_mono:
  assumes "InLeapYear t1 = InLeapYear t2" "DayWithinYear t1 < DayWithinYear t2"
  shows "MonthFromTime t1 \<le> MonthFromTime t2"
  using assms(2) unfolding MonthFromTime_def Let_def assms(1) by simp

lemma MonthFromTime_bounds: "0 \<le> MonthFromTime t" "MonthFromTime t \<le> 11"
  by (simp_all add: MonthFromTime_def Let_def)

lemma DateFromTime_same_month:
  assumes "InLeapYear t1 = InLeapYear t2" "MonthFromTime t1 = MonthFromTime t2"
  shows "DateFromTime t2 - DateFromTime t1 = DayWithinYear t2 - DayWithinYear t1"
  unfolding DateFromTime_def Let_def assms by simp

lemma DateFromTime_bounds: "1 \<le> DateFromTime t" "DateFromTime t \<le> 31"
proof -
  have "1 \<le> DateFromTime t \<and> DateFromTime t \<le> 31"
    using DayWithinYear_bounds [of t] InLeapYear_cases [of t]
    unfolding DateFromTime_def MonthFromTime_def Let_def
    by (auto split: if_splits)
  then show "1 \<le> DateFromTime t" "DateFromTime t \<le> 31" by simp_all
qed

lemma date_fields_lex:
  assumes "Day t1 < Day t2"
  shows "YearFromTime t1 < YearFromTime t2 \<or> YearFromTime t1 = YearFromTime t2 \<and>
    (MonthFromTime t1 < MonthFromTime t2 \<or> MonthFromTime t1 = MonthFromTime t2 \<and>
     DateFromTime t1 < DateFromTime t2)"
proof (cases "YearFromTime t1 = YearFromTime t2")
  case True
  then have leap: "InLeapYear t1 = InLeapYear t2" by (simp add: InLeapYear_def)
  have less: "DayWithinYear t1 < DayWithinYear t2"
    using assms True by (simp add: DayWithinYear_def)
  have "MonthFromTime t1 \<le> MonthFromTime t2" using leap less by (rule MonthFromTime_mono)
  moreover have "MonthFromTime t1 = MonthFromTime t2 \<Longrightarrow> DateFromTime t1 < DateFromTime t2"
    using DateFromTime_same_month [OF leap] less by simp
  ultimately show ?thesis using True by linarith
next
  case False
  moreover have "YearFromTime t1 \<le> YearFromTime t2"
    using assms by (simp add: YearFromTime_def YearFromDay_mono)
  ultimately show ?thesis by simp
qed

lemma date_fields_eq:
  assumes "Day t1 = Day t2"
  shows "YearFromTime t1 = YearFromTime t2" "MonthFromTime t1 = MonthFromTime t2"
    "DateFromTime t1 = DateFromTime t2"
  using assms
  by (simp_all add: YearFromTime_def MonthFromTime_def DateFromTime_def InLeapYear_def
      DayWithinYear_def)

lemma field_less:
  "a < 10 ^ w \<Longrightarrow> b < 10 ^ w \<Longrightarrow>
   (pad w a @ c # us < pad w b @ c # vs) = (a < b \<or> a = b \<and> us < vs)"
  by (simp add: less_append_same_length pad_less pad_eq)

lemma time_field_bounds:
  "0 \<le> HourFromTime t" "HourFromTime t < 24" "0 \<le> MinFromTime t" "MinFromTime t < 60"
  "0 \<le> SecFromTime t" "SecFromTime t < 60" "0 \<le> msFromTime t" "msFromTime t < 1000"
  by (simp_all add: HourFromTime_def MinFromTime_def SecFromTime_def msFromTime_def)

lemma toISOString_fields:
  assumes "four_digit_year t"
  shows "toISOString t =
    pad 4 (nat (YearFromTime t)) @ CHR ''-'' # pad 2 (nat (MonthFromTime t + 1)) @ CHR ''-'' #
    pad 2 (nat (DateFromTime t)) @ CHR ''T'' # pad 2 (nat (HourFromTime t)) @ CHR '':'' #
    pad 2 (nat (MinFromTime t)) @ CHR '':'' # pad 2 (nat (SecFromTime t)) @ CHR ''.'' #
    pad 3 (nat (msFromTime t)) @ [CHR ''Z'']"
  using assms by (simp add: toISOString_def year_string_def four_digit_year_def)

lemma toISOString_less_fields:
  assumes "four_digit_year t1" "four_digit_year t2"
  shows "(toISOString t1 < toISOString t2) =
    (YearFromTime t1 < YearFromTime t2 \<or> YearFromTime t1 = YearFromTime t2 \<and>
    (MonthFromTime t1 < MonthFromTime t2 \<or> MonthFromTime t1 = MonthFromTime t2 \<and>
    (DateFromTime t1 < DateFromTime t2 \<or> DateFromTime t1 = DateFromTime t2 \<and>
    (HourFromTime t1 < HourFromTime t2 \<or> HourFromTime t1 = HourFromTime t2 \<and>
    (MinFromTime t1 < MinFromTime t2 \<or> MinFromTime t1 = MinFromTime t2 \<and>
    (SecFromTime t1 < SecFromTime t2 \<or> SecFromTime t1 = SecFromTime t2 \<and>
     msFromTime t1 < msFromTime t2))))))"
proof -
  have y: "nat (YearFromTime t1) < 10 ^ 4" "nat (YearFromTime t2) < 10 ^ 4"
    using assms by (auto simp add: four_digit_year_def)
  have mo: "nat (MonthFromTime t + 1) < 10 ^ 2" for t
    using MonthFromTime_bounds [of t] by simp
  have d: "nat (DateFromTime t) < 10 ^ 2" for t
    using DateFromTime_bounds [of t] by simp
  have h: "nat (HourFromTime t) < 10 ^ 2" for t
    using time_field_bounds(2) [of t] by simp
  have mi: "nat (MinFromTime t) < 10 ^ 2" for t
    using time_field_bounds(4) [of t] by simp
  have s: "nat (SecFromTime t) < 10 ^ 2" for t
    using time_field_bounds(6) [of t] by simp
  have ms: "nat (msFromTime t) < 10 ^ 3" for t
    using time_field_bounds(8) [of t] by simp
  have last: "(pad 3 a @ [CHR ''Z''] < pad 3 b @ [CHR ''Z'']) = (a < b)"
    if "a < 10 ^ 3" "b < 10 ^ 3" for a b
    using field_less [OF that, of "CHR ''Z''" "[]" "[]"] by simp
  have "(toISOString t1 < toISOString t2) =
    (nat (YearFromTime t1) < nat (YearFromTime t2) \<or> nat (YearFromTime t1) = nat (YearFromTime t2) \<and>
    (nat (MonthFromTime t1 + 1) < nat (MonthFromTime t2 + 1) \<or> nat (MonthFromTime t1 + 1) = nat (MonthFromTime t2 + 1) \<and>
    (nat (DateFromTime t1) < nat (DateFromTime t2) \<or> nat (DateFromTime t1) = nat (DateFromTime t2) \<and>
    (nat (HourFromTime t1) < nat (HourFromTime t2) \<or> nat (HourFromTime t1) = nat (HourFromTime t2) \<and>
    (nat (MinFromTime t1) < nat (MinFromTime t2) \<or> nat (MinFromTime t1) = nat (MinFromTime t2) \<and>
    (nat (SecFromTime t1) < nat (SecFromTime t2) \<or> nat (SecFromTime t1) = nat (SecFromTime t2) \<and>
     nat (msFromTime t1) < nat (msFromTime t2)))))))"
    unfolding toISOString_fields [OF assms(1)] toISOString_fields [OF assms(2)]
    by (simp only: field_less [OF y] field_less [OF mo mo] field_less [OF d d]
        field_less [OF h h] field_less [OF mi mi] field_less [OF s s] last [OF ms ms])
  also have "\<dots> =
    (YearFromTime t1 < YearFromTime t2 \<or> YearFromTime t1 = YearFromTime t2 \<and>
    (MonthFromTime t1 < MonthFromTime t2 \<or> MonthFromTime t1 = MonthFromTime t2 \<and>
    (DateFromTime t1 < DateFromTime t2 \<or> DateFromTime t1 = DateFromTime t2 \<and>
    (HourFromTime t1 < HourFromTime t2 \<or> HourFromTime t1 = HourFromTime t2 \<and>
    (MinFromTime t1 < MinFromTime t2 \<or> MinFromTime t1 = MinFromTime t2 \<and>
    (SecFromTime t1 < SecFromTime t2 \<or> SecFromTime t1 = SecFromTime t2 \<and>
     msFromTime t1 < msFromTime t2))))))"
  proof -
    have "(nat (YearFromTime t1) < nat (YearFromTime t2)) = (YearFromTime t1 < YearFromTime t2)"
      "(nat (YearFromTime t1) = nat (YearFromTime t2)) = (YearFromTime t1 = YearFromTime t2)"
      using assms unfolding four_digit_year_def by linarith+
    moreover have "(nat (MonthFromTime t1 + 1) < nat (MonthFromTime t2 + 1)) = (MonthFromTime t1 < MonthFromTime t2)"
      "(nat (MonthFromTime t1 + 1) = nat (MonthFromTime t2 + 1)) = (MonthFromTime t1 = MonthFromTime t2)"
      using MonthFromTime_bounds(1) [of t1] MonthFromTime_bounds(1) [of t2] by linarith+
    moreover have "(nat (DateFromTime t1) < nat (DateFromTime t2)) = (DateFromTime t1 < DateFromTime t2)"
      "(nat (DateFromTime t1) = nat (DateFromTime t2)) = (DateFromTime t1 = DateFromTime t2)"
      using DateFromTime_bounds(1) [of t1] DateFromTime_bounds(1) [of t2] by linarith+
    moreover have "(nat (HourFromTime t1) < nat (HourFromTime t2)) = (HourFromTime t1 < HourFromTime t2)"
      "(nat (HourFromTime t1) = nat (HourFromTime t2)) = (HourFromTime t1 = HourFromTime t2)"
      using time_field_bounds(1) [of t1] time_field_bounds(1) [of t2] by linarith+
    moreover have "(nat (MinFromTime t1) < nat (MinFromTime t2)) = (MinFromTime t1 < MinFromTime t2)"
      "(nat (MinFromTime t1) = nat (MinFromTime t2)) = (MinFromTime t1 = MinFromTime t2)"
      using time_field_bounds(3) [of t1] time_field_bounds(3) [of t2] by linarith+
    moreover have "(nat (SecFromTime t1) < nat (SecFromTime t2)) = (SecFromTime t1 < SecFromTime t2)"
      "(nat (SecFromTime t1) = nat (SecFromTime t2)) = (SecFromTime t1 = SecFromTime t2)"
      using time_field_bounds(5) [of t1] time_field_bounds(5) [of t2] by linarith+
    moreover have "(nat (msFromTime t1) < nat (msFromTime t2)) = (msFromTime t1 < msFromTime t2)"
      using time_field_bounds(7) [of t1] time_field_bounds(7) [of t2] by linarith
    ultimately show ?thesis by (simp only:)
  qed
  finally show ?thesis .
qed

lemma toISOString_strict_mono:
  assumes "four_digit_year t1" "four_digit_year t2" "t1 < t2"
  shows "toISOString t1 < toISOString t2"
  unfolding toISOString_less_fields [OF assms(1,2)]
  using time_fields_lex [OF assms(3)] date_fields_lex [of t1 t2] date_fields_eq [of t1 t2]
  by blast

lemma toISOString_less_iff:
  assumes "four_digit_year t1" "four_digit_year t2"
  shows "(toISOString t1 < toISOString t2) = (t1 < t2)"
proof
  assume l: "toISOString t1 < toISOString t2"
  show "t1 < t2"
  proof (rule ccontr)
    assume "\<not> t1 < t2"
    then consider "t2 < t1" | "t1 = t2" by linarith
    then show False
    proof cases
      case 1
      then have "toISOString t2 < toISOString t1"
        using assms by (intro toISOString_strict_mono)
      with l show False by simp
    next
      case 2
      with l show False by simp
    qed
  qed
next
  assume "t1 < t2"
  then show "toISOString t1 < toISOString t2"
    using assms by (intro toISOString_strict_mono)
qed

section \<open>Facts about random identifiers\<close>

lemma of_char_hex_digit:
  "n < 16 \<Longrightarrow> (of_char (hex_digit n) :: nat) = (if n < 10 then 48 + n else 87 + n)"
  by (simp add: hex_digit_def)

lemma hex_digit_inj:
  assumes "i < 16" "j < 16" "hex_digit i = hex_digit j"
  shows "i = j"
proof -
  from assms(3) have "(of_char (hex_digit i) :: nat) = of_char (hex_digit j)" by (rule arg_cong)
  then have "(if i < 10 then 48 + i else 87 + i) = (if j < 10 then 48 + j else 87 + j)"
    by (simp only: of_char_hex_digit [OF assms(1)] of_char_hex_digit [OF assms(2)])
  then show ?thesis by (simp split: if_splits)
qed

lemma hex_byte_inj:
  assumes "hex_byte b = hex_byte c"
  shows "b = c"
proof -
  have lt: "unat x div 16 < 16" "unat x mod 16 < 16" for x :: "8 word"
  proof -
    have "unat x < 2 ^ LENGTH(8)" by (rule unsigned_less)
    then have "unat x < 256" by simp
    then show "unat x div 16 < 16" by simp
    show "unat x mod 16 < 16" by simp
  qed
  from assms have "hex_digit (unat b div 16) = hex_digit (unat c div 16)"
    and "hex_digit (unat b mod 16) = hex_digit (unat c mod 16)"
    by (simp_all add: hex_byte_def)
  then have "unat b div 16 = unat c div 16" "unat b mod 16 = unat c mod 16"
    using lt by (auto intro: hex_digit_inj)
  then have "unat b = unat c" by (metis div_mult_mod_eq)
  then show ?thesis by (rule word_unat_eq_iff [THEN iffD2])
qed

lemma length_hex_bytes: "length (hex_bytes bs) = 2 * length bs"
  by (induction bs) (simp_all add: hex_bytes_def hex_byte_def)

lemma hex_bytes_inj: "length bs = length cs \<Longrightarrow> hex_bytes bs = hex_bytes cs \<Longrightarrow> bs = cs"
proof (induction bs cs rule: list_induct2)
  case Nil
  then show ?case by simp
next
  case (Cons b bs c cs)
  from Cons.prems have "hex_byte b @ hex_bytes bs = hex_byte c @ hex_bytes cs"
    by (simp add: hex_bytes_def)
  moreover have "length (hex_byte b) = length (hex_byte c)" by (simp add: hex_byte_def)
  ultimately have "hex_byte b = hex_byte c" "hex_bytes bs = hex_bytes cs" by simp_all
  then show ?case using Cons.IH hex_byte_inj by simp
qed

lemma uuid_text_inj:
  assumes "length bs = 16" "length cs = 16" "uuid_text bs = uuid_text cs"
  shows "bs = cs"
proof -
  have parts: "hex_bytes (take 4 bs) = hex_bytes (take 4 cs)"
    "hex_bytes (take 2 (drop 4 bs)) = hex_bytes (take 2 (drop 4 cs))"
    "hex_bytes (take 2 (drop 6 bs)) = hex_bytes (take 2 (drop 6 cs))"
    "hex_bytes (take 2 (drop 8 bs)) = hex_bytes (take 2 (drop 8 cs))"
    "hex_bytes (drop 10 bs) = hex_bytes (drop 10 cs)"
    using assms by (simp_all add: uuid_text_def length_hex_bytes)
  have eqs: "take 4 bs = take 4 cs" "take 2 (drop 4 bs) = take 2 (drop 4 cs)"
    "take 2 (drop 6 bs) = take 2 (drop 6 cs)" "take 2 (drop 8 bs) = take 2 (drop 8 cs)"
    "drop 10 bs = drop 10 cs"
    using parts assms(1,2) by (auto intro!: hex_bytes_inj)
  have split: "xs = take 4 xs @ take 2 (drop 4 xs) @ take 2 (drop 6 xs) @ take 2 (drop 8 xs) @ drop 10 xs"
    for xs :: "8 word list"
  proof -
    have "take 2 (drop 8 xs) @ drop 10 xs = drop 8 xs"
      using append_take_drop_id [of 2 "drop 8 xs"] by simp
    moreover have "take 2 (drop 6 xs) @ drop 8 xs = drop 6 xs"
      using append_take_drop_id [of 2 "drop 6 xs"] by simp
    moreover have "take 2 (drop 4 xs) @ drop 6 xs = drop 4 xs"
      using append_take_drop_id [of 2 "drop 4 xs"] by simp
    ultimately show ?thesis by simp
  qed
  show ?thesis
    by (subst split [of bs], subst split [of cs]) (simp only: eqs)
qed

lemma length_stamp_v4 [simp]: "length (stamp_v4 bs) = length bs"
  by (simp add: stamp_v4_def)

lemma randomUUID_eq_iff:
  assumes "length bs = 16" "length cs = 16"
  shows "(randomUUID bs = randomUUID cs) = (stamp_v4 bs = stamp_v4 cs)"
  using assms uuid_text_inj [of "stamp_v4 bs" "stamp_v4 cs"]
  by (auto simp add: randomUUID_def)

lemma randomUUID_not_empty: "randomUUID bs \<noteq> []"
  by (simp add: randomUUID_def uuid_text_def)

lemma length_randomUUID: "length bs = 16 \<Longrightarrow> length (randomUUID bs) = 36"
  by (simp add: randomUUID_def uuid_text_def length_hex_bytes)

lemma randomUUID_values:
  "randomUUID [0x7c, 0x9e, 0x66, 0x79, 0x74, 0x25, 0xf0, 0xde, 0x14, 0x4b, 0xe0, 0x7f, 0xc1,
     0xf9, 0x0a, 0xe7] = ''7c9e6679-7425-40de-944b-e07fc1f90ae7''"
  "randomUUID [0x7d, 0x9e, 0x66, 0x79, 0x74, 0x25, 0xf0, 0xde, 0x14, 0x4b, 0xe0, 0x7f, 0xc1,
     0xf9, 0x0a, 0xe7] = ''7d9e6679-7425-40de-944b-e07fc1f90ae7''"
  by code_simp+

lemma stamp_v4_values:
  "stamp_v4 [0x7c, 0x9e, 0x66, 0x79, 0x74, 0x25, 0xf0, 0xde, 0x14, 0x4b, 0xe0, 0x7f, 0xc1,
     0xf9, 0x0a, 0xe7] \<noteq>
   stamp_v4 [0x7d, 0x9e, 0x66, 0x79, 0x74, 0x25, 0xf0, 0xde, 0x14, 0x4b, 0xe0, 0x7f, 0xc1,
     0xf9, 0x0a, 0xe7]"
  by code_simp

section \<open>Facts about the schemas\<close>

lemma decimal_values:
  "decimal 1 = ''1''" "decimal 6 = ''6''" "decimal 100 = ''100''" "decimal 1000 = ''1000''"
  "decimal (Suc 0) = ''1''"
  by code_simp+

lemma z_string_Inr:
  "(z_string mn mx p v = Inr s) =
   (v = Some (JStr s) \<and> mn \<le> length s \<and> (case mx of None \<Rightarrow> True | Some m \<Rightarrow> length s \<le> m))"
  by (auto simp add: z_string_def Let_def split: option.splits json.splits if_splits)

lemma z_string_Inl: "z_string mn mx p v = Inl is \<Longrightarrow> is \<noteq> []"
  by (auto simp add: z_string_def Let_def split: option.splits json.splits if_splits)

lemma postSchema_Inr:
  "(postSchema v = Inr d) =
   (\<exists>fs. v = JObj fs \<and>
      map_of fs ''title'' = Some (JStr (title d)) \<and> 1 \<le> length (title d) \<and>
      length (title d) \<le> 100 \<and>
      map_of fs ''content'' = Some (JStr (content d)) \<and> 1 \<le> length (content d) \<and>
      length (content d) \<le> 1000)"
proof (cases v)
  case (JObj fs)
  have "(postSchema v = Inr d) =
      (z_string 1 (Some 100) [''title''] (map_of fs ''title'') = Inr (title d) \<and>
       z_string 1 (Some 1000) [''content''] (map_of fs ''content'') = Inr (content d))"
    by (cases d) (auto simp add: postSchema_def JObj Let_def split: sum.splits)
  then show ?thesis
    unfolding z_string_Inr by (auto simp add: JObj)
qed (simp_all add: postSchema_def)

lemma validateRequestSchema_Inr:
  "(validateRequestSchema v = Inr d) =
   (\<exists>fs. v = JObj fs \<and>
      map_of fs ''id'' = Some (JStr (id_field d)) \<and> 1 \<le> length (id_field d) \<and>
      map_of fs ''salt'' = Some (JStr (salt d)) \<and> 6 \<le> length (salt d))"
proof (cases v)
  case (JObj fs)
  have "(validateRequestSchema v = Inr d) =
      (z_string 1 None [''id''] (map_of fs ''id'') = Inr (id_field d) \<and>
       z_string 6 None [''salt''] (map_of fs ''salt'') = Inr (salt d))"
    by (cases d) (auto simp add: validateRequestSchema_def JObj Let_def split: sum.splits)
  then show ?thesis
    unfolding z_string_Inr by (auto simp add: JObj)
qed (simp_all add: validateRequestSchema_def)

lemma postSchema_Inl: "postSchema v = Inl is \<Longrightarrow> is \<noteq> []"
  by (auto simp add: postSchema_def Let_def split: json.splits sum.splits dest: z_string_Inl)

lemma validateRequestSchema_Inl: "validateRequestSchema v = Inl is \<Longrightarrow> is \<noteq> []"
  by (auto simp add: validateRequestSchema_def Let_def split: json.splits sum.splits dest: z_string_Inl)

section \<open>Evaluating the ISO form\<close>

lemma YearFromTime_eqI:
  "DayFromYear y \<le> Day t \<Longrightarrow> Day t < DayFromYear (y + 1) \<Longrightarrow> YearFromTime t = y"
  unfolding YearFromTime_def by (rule YearFromDay_unique)

lemma pad_numeral: "pad (numeral k) n = pad (pred_numeral k) (n div 10) @ [digit (n mod 10)]"
proof -
  have "pad (Suc (pred_numeral k)) n = pad (pred_numeral k) (n div 10) @ [digit (n mod 10)]"
    by (rule pad.simps)
  then show ?thesis by (simp only: numeral_eq_Suc [symmetric])
qed

lemma pad_one: "pad (Suc 0) n = [digit (n mod 10)]"
  by simp

lemma digit_values:
  "digit 0 = CHR ''0''" "digit (Suc 0) = CHR ''1''" "digit 2 = CHR ''2''" "digit 3 = CHR ''3''"
  "digit 4 = CHR ''4''" "digit 5 = CHR ''5''" "digit 6 = CHR ''6''" "digit 7 = CHR ''7''"
  "digit 8 = CHR ''8''" "digit 9 = CHR ''9''"
  by code_simp+

lemmas iso_eval = toISOString_def year_string_def MonthFromTime_def DateFromTime_def
  DayWithinYear_def InLeapYear_def DaysInYear_def DayFromYear_def Day_def msPerDay_def
  HourFromTime_def MinFromTime_def SecFromTime_def msFromTime_def Let_def pad_numeral pad_one
  digit_values

lemma year_2024: "YearFromTime 1730614980123 = 2024" "YearFromTime 1730614980124 = 2024"
  by (rule YearFromTime_eqI; simp add: Day_def msPerDay_def DayFromYear_def)+

lemma year_9999: "YearFromTime 253402300799999 = 9999"
  by (rule YearFromTime_eqI; simp add: Day_def msPerDay_def DayFromYear_def)

lemma year_10000: "YearFromTime 253402300800000 = 10000"
  by (rule YearFromTime_eqI; simp add: Day_def msPerDay_def DayFromYear_def)

lemma iso_2024:
  "toISOString 1730614980123 = ''2024-11-03T06:23:00.123Z''"
  "toISOString 1730614980124 = ''2024-11-03T06:23:00.124Z''"
  by (simp_all add: year_2024 iso_eval)

lemma iso_9999: "toISOString 253402300799999 = ''9999-12-31T23:59:59.999Z''"
  by (simp add: year_9999 iso_eval)

lemma iso_10000: "toISOString 253402300800000 = ''+010000-01-01T00:00:00.000Z''"
  by (simp add: year_10000 iso_eval)

lemma four_digit_2024: "four_digit_year 1730614980123" "four_digit_year 1730614980124"
  by (simp_all add: four_digit_year_def year_2024)

section \<open>Facts about the in-memory namespace\<close>

lemma mem_kv_simps [simp]:
  "kv_put mem_kv = store_put" "kv_get mem_kv = store_get" "kv_list mem_kv = store_list"
  "kv_delete mem_kv = store_delete"
  by (simp_all add: mem_kv_def)

lemma delete_all_mem:
  "delete_all mem_kv ks st = ([], filter (\<lambda>kv. fst kv \<notin> set ks) st)"
proof (induction ks arbitrary: st)
  case Nil
  then show ?case by simp
next
  case (Cons k ks)
  have "AList.delete k st = filter (\<lambda>kv. fst kv \<noteq> k) st"
    by (induction st) auto
  then show ?case
    by (simp add: store_delete_def Cons.IH conj_commute)
qed

lemma store_list_set:
  "store_list p st = Inr ks \<Longrightarrow> set ks = {k \<in> set (map fst st). prefix p k}"
  by (force simp add: store_list_def)

lemma store_list_nonempty:
  "store_list p st = Inr ks \<Longrightarrow> (0 < length ks) = (\<exists>k \<in> set (map fst st). prefix p k)"
proof -
  assume "store_list p st = Inr ks"
  then have "set ks = {k \<in> set (map fst st). prefix p k}" by (rule store_list_set)
  moreover have "(0 < length ks) = (set ks \<noteq> {})" by simp
  ultimately show ?thesis by auto
qed

lemma delete_req_validate_mem:
  assumes "validateRequestSchema v = Inr data"
  shows "delete_req_validate mem_kv org v st =
    (if \<exists>k \<in> set (map fst st). prefix (org @ '':'' @ id_field data @ '':'') k
     then (echo data, filter (\<lambda>kv. \<not> prefix (org @ '':'' @ id_field data @ '':'') (fst kv)) st)
     else (no_data org, st))"
proof -
  let ?p = "org @ '':'' @ id_field data @ '':''"
  obtain ks where ks: "store_list ?p st = Inr ks" by (simp add: store_list_def)
  have set_ks: "set ks = {k \<in> set (map fst st). prefix ?p k}" using ks by (rule store_list_set)
  have "filter (\<lambda>kv. fst kv \<notin> set ks) st = filter (\<lambda>kv. \<not> prefix ?p (fst kv)) st"
    by (rule filter_cong) (auto simp add: set_ks)
  then show ?thesis
    using assms ks store_list_nonempty [OF ks]
    by (simp add: delete_req_validate_def delete_all_mem)
qed

section \<open>Facts about the handlers\<close>

lemma toISOString_eq_iff:
  assumes "four_digit_year t1" "four_digit_year t2"
  shows "(toISOString t1 = toISOString t2) = (t1 = t2)"
proof
  assume eq: "toISOString t1 = toISOString t2"
  show "t1 = t2"
  proof (rule ccontr)
    assume "t1 \<noteq> t2"
    then consider "t1 < t2" | "t2 < t1" by linarith
    then show False
    proof cases
      case 1
      then have "toISOString t1 < toISOString t2"
        using assms by (intro toISOString_strict_mono)
      with eq show False by simp
    next
      case 2
      then have "toISOString t2 < toISOString t1"
        using assms by (intro toISOString_strict_mono)
      with eq show False by simp
    qed
  qed
qed simp

lemma get_req_validate_body: "body (fst (get_req_validate kv org s)) \<noteq> Text x"
  by (simp add: get_req_validate_def no_data_def failed_def c_json_def
      split: sum.splits option.splits)

lemma delete_req_validate_body: "body (fst (delete_req_validate kv org v s)) \<noteq> Text x"
  by (simp add: delete_req_validate_def no_data_def failed_def echo_def invalid_input_def
      c_json_def split: sum.splits option.splits prod.splits)

subsection \<open>The order of keys and the latest record\<close>

lemma same_prefix_less: "(p @ a < p @ b) = (a < b)" for p :: "'a::linorder list"
  by (induction p) simp_all

lemma composite_key_less:
  "(composite_key org i a < composite_key org i b) = (a < b)"
proof -
  have "composite_key org i c = (org @ '':'' @ i @ '':'') @ c" for c
    by (simp add: composite_key_def)
  then show ?thesis by (simp only: same_prefix_less)
qed

lemma composite_key_eq: "(composite_key org i a = composite_key org i b) = (a = b)"
  by (simp add: composite_key_def)

lemma sorted_le_last: "sorted ys \<Longrightarrow> y \<in> set ys \<Longrightarrow> y \<le> last ys" for ys :: "'a::linorder list"
  by (induction ys) auto

lemma last_sort_Max: "xs \<noteq> [] \<Longrightarrow> last (sort xs) = Max (set xs)" for xs :: "'a::linorder list"
proof -
  assume ne: "xs \<noteq> []"
  then have ne': "sort xs \<noteq> []" by (metis length_0_conv length_sort)
  show ?thesis
  proof (rule Max_eqI [symmetric])
    show "finite (set xs)" by simp
    show "y \<le> last (sort xs)" if "y \<in> set xs" for y
      using that sorted_le_last [of "sort xs" y] by simp
    show "last (sort xs) \<in> set xs" using last_in_set [OF ne'] by simp
  qed
qed

lemma post_req_validate_mem:
  assumes "validateRequestSchema v = Inr data"
  shows "post_req_validate mem_kv org v now st =
    (echo data,
     AList.update (composite_key org (id_field data) (toISOString now))
       (Stringified (stored_record org data (toISOString now))) st)"
  using assms by (simp add: post_req_validate_def store_put_def JSON_stringify_def Let_def)

lemma get_req_validate_mem_latest:
  assumes k: "k \<in> set (map fst st)" "prefix (org @ '':'') k"
      and top: "\<forall>k' \<in> set (map fst st). prefix (org @ '':'') k' \<longrightarrow> k' \<le> k"
      and val: "map_of st k = Some (Stringified (stored_record org' d ts))"
  shows "get_req_validate mem_kv org st = (echo d, st)"
proof -
  define ks where "ks = remdups (filter (prefix (org @ '':'')) (map fst st))"
  have set_ks: "set ks = {k' \<in> set (map fst st). prefix (org @ '':'') k'}"
    by (auto simp add: ks_def)
  have ne: "ks \<noteq> []" using k set_ks by auto
  have "Max (set ks) = k"
    by (rule Max_eqI) (use k top set_ks in auto)
  then have last: "last (sort ks) = k" using last_sort_Max [OF ne] by simp
  have ne': "sort ks \<noteq> []" using ne by (metis length_0_conv length_sort)
  have len: "0 < length (sort ks)" using ne by simp
  have nth: "sort ks ! (length (sort ks) - 1) = k"
    unfolding last_conv_nth [OF ne', symmetric] by (rule last)
  have list: "store_list (org @ '':'') st = Inr (sort ks)"
    by (simp add: store_list_def ks_def)
  show ?thesis
    unfolding get_req_validate_def
    by (simp only: mem_kv_simps list sum.case len if_True nth)
      (simp add: store_get_def val stored_record_def echo_def)
qed

lemma composite_key_mono:
  assumes "four_digit_year t" "four_digit_year u" "t \<le> u"
  shows "composite_key org i (toISOString t) \<le> composite_key org i (toISOString u)"
proof (cases "t = u")
  case True
  then show ?thesis by simp
next
  case False
  with assms(3) have "t < u" by simp
  then have "toISOString t < toISOString u"
    using assms(1,2) by (intro toISOString_strict_mono)
  then show ?thesis by (simp add: composite_key_less less_imp_le)
qed

lemma latest_of_two_creates:
  assumes fd: "four_digit_year t1" "four_digit_year t2"
      and v1: "validateRequestSchema v1 = Inr d1" and v2: "validateRequestSchema v2 = Inr d2"
      and i: "id_field d1 = i" "id_field d2 = i" and ne: "t1 \<noteq> t2"
      and top: "\<forall>k \<in> set (map fst st). prefix (org @ '':'') k \<longrightarrow>
                  k \<le> composite_key org i (toISOString (max t1 t2))"
  shows "get_req_validate mem_kv org
           (snd (post_req_validate mem_kv org v2 t2 (snd (post_req_validate mem_kv org v1 t1 st))))
         = (echo (if t1 < t2 then d2 else d1),
            snd (post_req_validate mem_kv org v2 t2 (snd (post_req_validate mem_kv org v1 t1 st))))"
proof -
  define k1 where "k1 = composite_key org i (toISOString t1)"
  define k2 where "k2 = composite_key org i (toISOString t2)"
  define r1 where "r1 = Stringified (stored_record org d1 (toISOString t1))"
  define r2 where "r2 = Stringified (stored_record org d2 (toISOString t2))"
  define st2 where "st2 = AList.update k2 r2 (AList.update k1 r1 st)"
  define km where "km = composite_key org i (toISOString (max t1 t2))"
  have st2: "snd (post_req_validate mem_kv org v2 t2 (snd (post_req_validate mem_kv org v1 t1 st))) = st2"
    by (simp add: post_req_validate_mem [OF v1] post_req_validate_mem [OF v2] i st2_def k1_def
        k2_def r1_def r2_def)
  have keys: "set (map fst st2) = {k1, k2} \<union> set (map fst st)"
    by (auto simp add: st2_def AList.dom_update)
  have m: "map_of st2 = (map_of st)(k1 \<mapsto> r1, k2 \<mapsto> r2)"
    by (simp add: st2_def AList.update_conv')
  have k12: "k1 \<noteq> k2"
    using ne toISOString_eq_iff [OF fd] by (simp add: k1_def k2_def composite_key_eq)
  have fdm: "four_digit_year (max t1 t2)" using fd by (simp add: max_def)
  have le: "k1 \<le> km" "k2 \<le> km"
    unfolding k1_def k2_def km_def using fd fdm by (auto intro!: composite_key_mono)
  have pre: "prefix (org @ '':'') km" by (simp add: km_def composite_key_def)
  have top2: "\<forall>k' \<in> set (map fst st2). prefix (org @ '':'') k' \<longrightarrow> k' \<le> km"
    using top le unfolding keys km_def by auto
  show ?thesis
  proof (cases "t1 < t2")
    case True
    then have km: "km = k2" by (simp add: km_def k2_def max_def)
    have "get_req_validate mem_kv org st2 = (echo d2, st2)"
    proof (rule get_req_validate_mem_latest [where k = km])
      show "km \<in> set (map fst st2)" unfolding keys km by simp
      show "prefix (org @ '':'') km" by (rule pre)
      show "\<forall>k' \<in> set (map fst st2). prefix (org @ '':'') k' \<longrightarrow> k' \<le> km" by (rule top2)
      show "map_of st2 km = Some (Stringified (stored_record org d2 (toISOString t2)))"
        by (simp add: m km r2_def)
    qed
    with True show ?thesis by (simp add: st2)
  next
    case False
    then have km: "km = k1" by (simp add: km_def k1_def max_def)
    have "get_req_validate mem_kv org st2 = (echo d1, st2)"
    proof (rule get_req_validate_mem_latest [where k = km])
      show "km \<in> set (map fst st2)" unfolding keys km by simp
      show "prefix (org @ '':'') km" by (rule pre)
      show "\<forall>k' \<in> set (map fst st2). prefix (org @ '':'') k' \<longrightarrow> k' \<le> km" by (rule top2)
      show "map_of st2 km = Some (Stringified (stored_record org d1 (toISOString t1)))"
        using k12 by (simp add: m km r1_def)
    qed
    with False show ?thesis by (simp add: st2)
  qed
qed

lemma filter_update_dropped:
  "\<not> P k \<Longrightarrow> filter (\<lambda>kv. P (fst kv)) (AList.update k v al) = filter (\<lambda>kv. P (fst kv)) al"
  by (induction al) auto

lemma req_validate_not_shared:
  "shared_routes pf \<lparr>req_method = m, req_path = [''api'', org, ''req-validate''],
     json_body = v\<rparr> s = None"
  by (simp add: shared_routes_def posts_id_route_def)

section \<open>Claims\<close>

subsection \<open>C1: creating a validation request\<close>

text \<open>
  C1. For every valid ValidationRequest payload and organization \<open>org\<close>, the Create
  handler calls \<^verbatim>\<open>put\<close> once, with the key \<open>org:id:timestamp\<close>, the timestamp being
  the ISO form of the clock reading, and the JSON text of
  \<^verbatim>\<open>{org, id, salt, timestamp}\<close>. When \<^verbatim>\<open>put\<close> returns, the reply is HTTP 200 with
  exactly \<^verbatim>\<open>{id, salt}\<close>; when it throws, the reply is HTTP 500 with
  \<^verbatim>\<open>{ok: false, message: 'Validation failed', errors: [text]}\<close>, the text being the
  message of the thrown error (\<^verbatim>\<open>'Unknown error'\<close> for a thrown value that is no
  \<^verbatim>\<open>Error\<close>). On the in-memory namespace the state afterwards is the one before
  with that one record under that key, every other key as it was.
\<close>

theorem create_stores_and_echoes:
  assumes "validateRequestSchema v = Inr data"
  shows
   "(\<forall>s'. kv_put kv (org @ '':'' @ id_field data @ '':'' @ toISOString now)
            (JSON_stringify (JObj [(''org'', JStr org), (''id'', JStr (id_field data)),
               (''salt'', JStr (salt data)), (''timestamp'', JStr (toISOString now))])) s = Inr s'
        \<longrightarrow> post_req_validate kv org v now s =
          (\<lparr>status = 200,
            body = Json (JObj [(''id'', JStr (id_field data)), (''salt'', JStr (salt data))])\<rparr>, s'))
    \<and> (\<forall>e. kv_put kv (org @ '':'' @ id_field data @ '':'' @ toISOString now)
            (JSON_stringify (JObj [(''org'', JStr org), (''id'', JStr (id_field data)),
               (''salt'', JStr (salt data)), (''timestamp'', JStr (toISOString now))])) s = Inl e
        \<longrightarrow> post_req_validate kv org v now s =
          (\<lparr>status = 500,
            body = Json (JObj [(''ok'', JBool False), (''message'', JStr ''Validation failed''),
              (''errors'', JArr [JStr (case e of Error m \<Rightarrow> m | Not_an_Error \<Rightarrow> ''Unknown error'')])])\<rparr>,
           s))
    \<and> post_req_validate mem_kv org v now st =
          (\<lparr>status = 200,
            body = Json (JObj [(''id'', JStr (id_field data)), (''salt'', JStr (salt data))])\<rparr>,
           AList.update (org @ '':'' @ id_field data @ '':'' @ toISOString now)
             (Stringified (JObj [(''org'', JStr org), (''id'', JStr (id_field data)),
               (''salt'', JStr (salt data)), (''timestamp'', JStr (toISOString now))])) st)
    \<and> map_of (snd (post_req_validate mem_kv org v now st)) =
          (map_of st)(org @ '':'' @ id_field data @ '':'' @ toISOString now \<mapsto>
             Stringified (JObj [(''org'', JStr org), (''id'', JStr (id_field data)),
               (''salt'', JStr (salt data)), (''timestamp'', JStr (toISOString now))]))"
proof -
  have "error_text e = (case e of Error m \<Rightarrow> m | Not_an_Error \<Rightarrow> ''Unknown error'')" for e
    by (cases e) simp_all
  then show ?thesis
    using assms
    by (simp add: post_req_validate_def composite_key_def stored_record_def echo_def failed_def
        c_json_def store_put_def JSON_stringify_def AList.update_conv' Let_def)
qed

text \<open>
  One request on the empty in-memory namespace, and the same request on a namespace
  whose \<^verbatim>\<open>put\<close> throws.
\<close>

theorem create_stores_and_echoes_witness:
  "validateRequestSchema (JObj [(''id'', JStr ''alpha''), (''salt'', JStr ''123456'')]) =
     Inr \<lparr>id_field = ''alpha'', salt = ''123456''\<rparr>
   \<and> post_req_validate mem_kv ''acme''
       (JObj [(''id'', JStr ''alpha''), (''salt'', JStr ''123456'')]) 1730614980123 [] =
       (\<lparr>status = 200, body = Json (JObj [(''id'', JStr ''alpha''), (''salt'', JStr ''123456'')])\<rparr>,
        [(''acme:alpha:2024-11-03T06:23:00.123Z'',
          Stringified (JObj [(''org'', JStr ''acme''), (''id'', JStr ''alpha''),
            (''salt'', JStr ''123456''), (''timestamp'', JStr ''2024-11-03T06:23:00.123Z'')]))])
   \<and> post_req_validate (down_kv (Error ''KV PUT failed: 503'')) ''acme''
       (JObj [(''id'', JStr ''alpha''), (''salt'', JStr ''123456'')]) 1730614980123 ([] :: store) =
       (\<lparr>status = 500,
         body = Json (JObj [(''ok'', JBool False), (''message'', JStr ''Validation failed''),
           (''errors'', JArr [JStr ''KV PUT failed: 503''])])\<rparr>, [])"
proof -
  have v: "validateRequestSchema (JObj [(''id'', JStr ''alpha''), (''salt'', JStr ''123456'')]) =
     Inr \<lparr>id_field = ''alpha'', salt = ''123456''\<rparr>"
    by (simp add: validateRequestSchema_def z_string_def)
  show ?thesis
    using v
      create_stores_and_echoes [OF v, of mem_kv "''acme''" 1730614980123 "[]" "[]"]
      create_stores_and_echoes [OF v, of "down_kv (Error ''KV PUT failed: 503'')" "''acme''"
        1730614980123 "[] :: store" "[]"]
    by (simp add: iso_2024 store_put_def down_kv_def JSON_stringify_def)
qed

subsection \<open>C2: listing the latest validation request\<close>

text \<open>
  C2, as stated, fails in its last clause: when the value fetched for the last key
  is a string that is no JSON text, \<^verbatim>\<open>JSON.parse\<close> throws inside the \<^verbatim>\<open>try\<close> and the
  \<^verbatim>\<open>catch\<close> block replies HTTP 500, not 404.
\<close>

theorem stored_garbage_is_a_server_error:
  "get_req_validate mem_kv ''acme''
     [(''acme:alpha:2024-11-03T06:23:00.123Z'', Malformed ''oops'' ''Unexpected token o'')] =
   (\<lparr>status = 500,
     body = Json (JObj [(''ok'', JBool False), (''message'', JStr ''Failed to fetch request''),
       (''errors'', JArr [JStr ''Unexpected token o''])])\<rparr>,
    [(''acme:alpha:2024-11-03T06:23:00.123Z'', Malformed ''oops'' ''Unexpected token o'')])"
  by (simp add: get_req_validate_def store_list_def store_get_def failed_def c_json_def)

text \<open>
  C2, amended. For every organization \<open>org\<close> the List-latest handler lists the keys
  with prefix \<open>org:\<close>. If the listing is empty it replies HTTP 404 with
  \<^verbatim>\<open>{ok: false, message: 'No data found for organization: ' + org, errors: ['Organization not found']}\<close>.
  Otherwise it fetches the value of the last key listed; if that value is missing or
  is the empty string, the reply is the same 404; if it is the JSON text of an object,
  the reply is HTTP 200 with the \<^verbatim>\<open>id\<close> and \<^verbatim>\<open>salt\<close> of that object (so \<^verbatim>\<open>{id, salt}\<close> for
  a record that Create stored); if it is a string that is not empty and no JSON text,
  the reply is HTTP 500 with the message of the parser's error. The state of the
  namespace is returned as it was.
\<close>

theorem list_latest_reply:
  "(kv_list kv (org @ '':'') s = Inr [] \<longrightarrow>
      get_req_validate kv org s =
        (\<lparr>status = 404,
          body = Json (JObj [(''ok'', JBool False),
            (''message'', JStr (''No data found for organization: '' @ org)),
            (''errors'', JArr [JStr ''Organization not found''])])\<rparr>, s))
   \<and> (\<forall>keys. kv_list kv (org @ '':'') s = Inr keys \<and> keys \<noteq> [] \<longrightarrow>
        (kv_get kv (last keys) s = Inr None \<or>
         (\<exists>m. kv_get kv (last keys) s = Inr (Some (Malformed [] m))) \<longrightarrow>
           get_req_validate kv org s =
             (\<lparr>status = 404,
               body = Json (JObj [(''ok'', JBool False),
                 (''message'', JStr (''No data found for organization: '' @ org)),
                 (''errors'', JArr [JStr ''Organization not found''])])\<rparr>, s))
      \<and> (\<forall>fs. kv_get kv (last keys) s = Inr (Some (Stringified (JObj fs))) \<longrightarrow>
           get_req_validate kv org s =
             (\<lparr>status = 200,
               body = Json (JObj (object_literal
                 [(''id'', map_of fs ''id''), (''salt'', map_of fs ''salt'')]))\<rparr>, s))
      \<and> (\<forall>org' i sa ts. kv_get kv (last keys) s =
             Inr (Some (Stringified (JObj [(''org'', JStr org'), (''id'', JStr i),
               (''salt'', JStr sa), (''timestamp'', JStr ts)]))) \<longrightarrow>
           get_req_validate kv org s =
             (\<lparr>status = 200,
               body = Json (JObj [(''id'', JStr i), (''salt'', JStr sa)])\<rparr>, s))
      \<and> (\<forall>t m. t \<noteq> [] \<and> kv_get kv (last keys) s = Inr (Some (Malformed t m)) \<longrightarrow>
           get_req_validate kv org s =
             (\<lparr>status = 500,
               body = Json (JObj [(''ok'', JBool False),
                 (''message'', JStr ''Failed to fetch request''),
                 (''errors'', JArr [JStr m])])\<rparr>, s)))"
proof -
  have nth: "keys ! (length keys - Suc 0) = last keys" if "keys \<noteq> []" for keys :: "string list"
    using that by (simp add: last_conv_nth)
  show ?thesis
    by (auto simp add: get_req_validate_def no_data_def failed_def c_json_def nth)
qed

text \<open>
  An empty namespace, a listing whose last key is not found by the read, a stored
  record, and a stored string that does not parse.
\<close>

theorem list_latest_reply_witness:
  "get_req_validate mem_kv ''acme'' [] =
     (\<lparr>status = 404,
       body = Json (JObj [(''ok'', JBool False),
         (''message'', JStr ''No data found for organization: acme''),
         (''errors'', JArr [JStr ''Organization not found''])])\<rparr>, [])
   \<and> get_req_validate (stale_kv [''acme:alpha:2024-11-03T06:23:00.123Z'']) ''acme'' ([] :: store) =
     (\<lparr>status = 404,
       body = Json (JObj [(''ok'', JBool False),
         (''message'', JStr ''No data found for organization: acme''),
         (''errors'', JArr [JStr ''Organization not found''])])\<rparr>, [])
   \<and> get_req_validate mem_kv ''acme''
       [(''acme:alpha:2024-11-03T06:23:00.123Z'',
         Stringified (JObj [(''org'', JStr ''acme''), (''id'', JStr ''alpha''),
           (''salt'', JStr ''123456''), (''timestamp'', JStr ''2024-11-03T06:23:00.123Z'')]))] =
     (\<lparr>status = 200, body = Json (JObj [(''id'', JStr ''alpha''), (''salt'', JStr ''123456'')])\<rparr>,
      [(''acme:alpha:2024-11-03T06:23:00.123Z'',
         Stringified (JObj [(''org'', JStr ''acme''), (''id'', JStr ''alpha''),
           (''salt'', JStr ''123456''), (''timestamp'', JStr ''2024-11-03T06:23:00.123Z'')]))])
   \<and> get_req_validate mem_kv ''acme''
       [(''acme:alpha:2024-11-03T06:23:00.123Z'', Malformed ''oops'' ''Unexpected token o'')] =
     (\<lparr>status = 500,
       body = Json (JObj [(''ok'', JBool False), (''message'', JStr ''Failed to fetch request''),
         (''errors'', JArr [JStr ''Unexpected token o''])])\<rparr>,
      [(''acme:alpha:2024-11-03T06:23:00.123Z'', Malformed ''oops'' ''Unexpected token o'')])"
proof -
  have a: "get_req_validate mem_kv ''acme'' [] =
     (\<lparr>status = 404,
       body = Json (JObj [(''ok'', JBool False),
         (''message'', JStr ''No data found for organization: acme''),
         (''errors'', JArr [JStr ''Organization not found''])])\<rparr>, [])"
    using list_latest_reply [of mem_kv "''acme''" "[]"] by (simp add: store_list_def)
  have b: "get_req_validate (stale_kv [''acme:alpha:2024-11-03T06:23:00.123Z'']) ''acme'' ([] :: store) =
     (\<lparr>status = 404,
       body = Json (JObj [(''ok'', JBool False),
         (''message'', JStr ''No data found for organization: acme''),
         (''errors'', JArr [JStr ''Organization not found''])])\<rparr>, [])"
    using list_latest_reply [of "stale_kv [''acme:alpha:2024-11-03T06:23:00.123Z'']" "''acme''"
        "[] :: store"]
    by (simp add: stale_kv_def)
  have c: "get_req_validate mem_kv ''acme''
       [(''acme:alpha:2024-11-03T06:23:00.123Z'',
         Stringified (JObj [(''org'', JStr ''acme''), (''id'', JStr ''alpha''),
           (''salt'', JStr ''123456''), (''timestamp'', JStr ''2024-11-03T06:23:00.123Z'')]))] =
     (\<lparr>status = 200, body = Json (JObj [(''id'', JStr ''alpha''), (''salt'', JStr ''123456'')])\<rparr>,
      [(''acme:alpha:2024-11-03T06:23:00.123Z'',
         Stringified (JObj [(''org'', JStr ''acme''), (''id'', JStr ''alpha''),
           (''salt'', JStr ''123456''), (''timestamp'', JStr ''2024-11-03T06:23:00.123Z'')]))])"
    using list_latest_reply [of mem_kv "''acme''"
        "[(''acme:alpha:2024-11-03T06:23:00.123Z'',
         Stringified (JObj [(''org'', JStr ''acme''), (''id'', JStr ''alpha''),
           (''salt'', JStr ''123456''), (''timestamp'', JStr ''2024-11-03T06:23:00.123Z'')]))]"]
    by (simp add: store_list_def store_get_def)
  have d: "get_req_validate mem_kv ''acme''
       [(''acme:alpha:2024-11-03T06:23:00.123Z'', Malformed ''oops'' ''Unexpected token o'')] =
     (\<lparr>status = 500,
       body = Json (JObj [(''ok'', JBool False), (''message'', JStr ''Failed to fetch request''),
         (''errors'', JArr [JStr ''Unexpected token o''])])\<rparr>,
      [(''acme:alpha:2024-11-03T06:23:00.123Z'', Malformed ''oops'' ''Unexpected token o'')])"
    using list_latest_reply [of mem_kv "''acme''"
        "[(''acme:alpha:2024-11-03T06:23:00.123Z'', Malformed ''oops'' ''Unexpected token o'')]"]
    by (simp add: store_list_def store_get_def)
  from a b c d show ?thesis by (intro conjI)
qed

subsection \<open>C3: deleting by organization and identifier\<close>

text \<open>
  C3. For every valid ValidationRequest payload and organization \<open>org\<close>, the
  Delete-matching handler on the in-memory namespace looks for the keys with prefix
  \<open>org:id:\<close>. If there is none it replies HTTP 404 and leaves the state alone;
  otherwise it removes every entry whose key has that prefix, keeps every other
  entry, and replies HTTP 200 with \<^verbatim>\<open>{id, salt}\<close> of the request payload, whatever
  the removed records held.
\<close>

theorem delete_matching_keys:
  assumes "validateRequestSchema v = Inr data"
  shows "delete_req_validate mem_kv org v st =
    (if \<exists>k \<in> set (map fst st). prefix (org @ '':'' @ id_field data @ '':'') k
     then (\<lparr>status = 200,
            body = Json (JObj [(''id'', JStr (id_field data)), (''salt'', JStr (salt data))])\<rparr>,
           filter (\<lambda>kv. \<not> prefix (org @ '':'' @ id_field data @ '':'') (fst kv)) st)
     else (\<lparr>status = 404,
            body = Json (JObj [(''ok'', JBool False),
              (''message'', JStr (''No data found for organization: '' @ org)),
              (''errors'', JArr [JStr ''Organization not found''])])\<rparr>, st))"
  by (simp add: delete_req_validate_mem [OF assms] echo_def no_data_def c_json_def)

text \<open>
  The record removed was stored with another salt than the one the caller sends and
  gets back; a namespace without a matching key gives the 404.
\<close>

theorem delete_matching_keys_witness:
  "validateRequestSchema (JObj [(''id'', JStr ''alpha''), (''salt'', JStr ''caller-salt'')]) =
     Inr \<lparr>id_field = ''alpha'', salt = ''caller-salt''\<rparr>
   \<and> delete_req_validate mem_kv ''acme''
       (JObj [(''id'', JStr ''alpha''), (''salt'', JStr ''caller-salt'')])
       [(''acme:alpha:2024-11-03T06:23:00.123Z'',
         Stringified (JObj [(''org'', JStr ''acme''), (''id'', JStr ''alpha''),
           (''salt'', JStr ''stored-salt''), (''timestamp'', JStr ''2024-11-03T06:23:00.123Z'')])),
        (''acme:beta:2024-11-03T06:23:00.124Z'',
         Stringified (JObj [(''org'', JStr ''acme''), (''id'', JStr ''beta''),
           (''salt'', JStr ''other-salt''), (''timestamp'', JStr ''2024-11-03T06:23:00.124Z'')]))] =
       (\<lparr>status = 200,
         body = Json (JObj [(''id'', JStr ''alpha''), (''salt'', JStr ''caller-salt'')])\<rparr>,
        [(''acme:beta:2024-11-03T06:23:00.124Z'',
          Stringified (JObj [(''org'', JStr ''acme''), (''id'', JStr ''beta''),
           (''salt'', JStr ''other-salt''), (''timestamp'', JStr ''2024-11-03T06:23:00.124Z'')]))])
   \<and> delete_req_validate mem_kv ''acme''
       (JObj [(''id'', JStr ''alpha''), (''salt'', JStr ''caller-salt'')])
       [(''acme:beta:2024-11-03T06:23:00.124Z'', Malformed ''x'' ''y'')] =
       (\<lparr>status = 404,
         body = Json (JObj [(''ok'', JBool False),
           (''message'', JStr ''No data found for organization: acme''),
           (''errors'', JArr [JStr ''Organization not found''])])\<rparr>,
        [(''acme:beta:2024-11-03T06:23:00.124Z'', Malformed ''x'' ''y'')])"
proof -
  have v: "validateRequestSchema (JObj [(''id'', JStr ''alpha''), (''salt'', JStr ''caller-salt'')]) =
     Inr \<lparr>id_field = ''alpha'', salt = ''caller-salt''\<rparr>"
    by (simp add: validateRequestSchema_def z_string_def)
  show ?thesis
    using v
      delete_matching_keys [OF v, of "''acme''"
        "[(''acme:alpha:2024-11-03T06:23:00.123Z'',
         Stringified (JObj [(''org'', JStr ''acme''), (''id'', JStr ''alpha''),
           (''salt'', JStr ''stored-salt''), (''timestamp'', JStr ''2024-11-03T06:23:00.123Z'')])),
        (''acme:beta:2024-11-03T06:23:00.124Z'',
         Stringified (JObj [(''org'', JStr ''acme''), (''id'', JStr ''beta''),
           (''salt'', JStr ''other-salt''), (''timestamp'', JStr ''2024-11-03T06:23:00.124Z'')]))]"]
      delete_matching_keys [OF v, of "''acme''"
        "[(''acme:beta:2024-11-03T06:23:00.124Z'', Malformed ''x'' ''y'')]"]
    by simp
qed

subsection \<open>C4: schema validation\<close>

text \<open>
  C4, as stated, fails: a Post payload with a field outside the schema passes
  validation, the extra field being dropped from the parsed data.
\<close>

theorem extra_field_passes:
  "postSchema (JObj [(''title'', JStr ''Hello''), (''content'', JStr ''World''),
                     (''extra'', JBool True)])
   = Inr \<lparr>title = ''Hello'', content = ''World''\<rparr>"
  by (simp add: postSchema_def z_string_def)

text \<open>
  C4, amended. A Post payload passes iff it is an object whose \<^verbatim>\<open>title\<close> is a string
  of 1 to 100 characters and whose \<^verbatim>\<open>content\<close> is a string of 1 to 1000 characters; a
  ValidationRequest payload passes iff it is an object whose \<^verbatim>\<open>id\<close> is a string that
  is not empty and whose \<^verbatim>\<open>salt\<close> is a string of at least 6 characters. A missing
  field fails validation, a field outside the schema is ignored. On every failure the
  list of issues is not empty, the reply is HTTP 400 with
  \<^verbatim>\<open>{ok: false, message: 'Invalid input', errors}\<close>, and the handler body does not
  run: the state of the namespace is returned as it was.
\<close>

theorem validation_gates_handlers:
  "((\<exists>d. postSchema v = Inr d) =
      (\<exists>fs t c. v = JObj fs \<and>
         map_of fs ''title'' = Some (JStr t) \<and> 1 \<le> length t \<and> length t \<le> 100 \<and>
         map_of fs ''content'' = Some (JStr c) \<and> 1 \<le> length c \<and> length c \<le> 1000))
   \<and> ((\<exists>d. validateRequestSchema v = Inr d) =
      (\<exists>fs i sa. v = JObj fs \<and>
         map_of fs ''id'' = Some (JStr i) \<and> 1 \<le> length i \<and>
         map_of fs ''salt'' = Some (JStr sa) \<and> 6 \<le> length sa))
   \<and> (\<forall>is. postSchema v = Inl is \<longrightarrow>
         is \<noteq> [] \<and>
         post_posts v rnd t1 t2 s =
           (\<lparr>status = 400,
             body = Json (JObj [(''ok'', JBool False), (''message'', JStr ''Invalid input''),
                                (''errors'', JArr (map issue_json is))])\<rparr>, s) \<and>
         put_posts_id pid v t1 t2 s =
           (\<lparr>status = 400,
             body = Json (JObj [(''ok'', JBool False), (''message'', JStr ''Invalid input''),
                                (''errors'', JArr (map issue_json is))])\<rparr>, s))
   \<and> (\<forall>is. validateRequestSchema v = Inl is \<longrightarrow>
         is \<noteq> [] \<and>
         post_req_validate kv org v t1 s =
           (\<lparr>status = 400,
             body = Json (JObj [(''ok'', JBool False), (''message'', JStr ''Invalid input''),
                                (''errors'', JArr (map issue_json is))])\<rparr>, s) \<and>
         delete_req_validate kv org v s =
           (\<lparr>status = 400,
             body = Json (JObj [(''ok'', JBool False), (''message'', JStr ''Invalid input''),
                                (''errors'', JArr (map issue_json is))])\<rparr>, s) \<and>
         post_req_validate_index v s =
           (\<lparr>status = 400,
             body = Json (JObj [(''ok'', JBool False), (''message'', JStr ''Invalid input''),
                                (''errors'', JArr (map issue_json is))])\<rparr>, s))"
proof (intro conjI allI impI)
  show "(\<exists>d. postSchema v = Inr d) =
      (\<exists>fs t c. v = JObj fs \<and>
         map_of fs ''title'' = Some (JStr t) \<and> 1 \<le> length t \<and> length t \<le> 100 \<and>
         map_of fs ''content'' = Some (JStr c) \<and> 1 \<le> length c \<and> length c \<le> 1000)"
  proof
    assume "\<exists>d. postSchema v = Inr d"
    then show "\<exists>fs t c. v = JObj fs \<and>
         map_of fs ''title'' = Some (JStr t) \<and> 1 \<le> length t \<and> length t \<le> 100 \<and>
         map_of fs ''content'' = Some (JStr c) \<and> 1 \<le> length c \<and> length c \<le> 1000"
      unfolding postSchema_Inr by blast
  next
    assume "\<exists>fs t c. v = JObj fs \<and>
         map_of fs ''title'' = Some (JStr t) \<and> 1 \<le> length t \<and> length t \<le> 100 \<and>
         map_of fs ''content'' = Some (JStr c) \<and> 1 \<le> length c \<and> length c \<le> 1000"
    then obtain fs t c where "v = JObj fs"
      "map_of fs ''title'' = Some (JStr t)" "1 \<le> length t" "length t \<le> 100"
      "map_of fs ''content'' = Some (JStr c)" "1 \<le> length c" "length c \<le> 1000"
      by blast
    then have "postSchema v = Inr \<lparr>title = t, content = c\<rparr>"
      unfolding postSchema_Inr by simp
    then show "\<exists>d. postSchema v = Inr d" ..
  qed
next
  show "(\<exists>d. validateRequestSchema v = Inr d) =
      (\<exists>fs i sa. v = JObj fs \<and>
         map_of fs ''id'' = Some (JStr i) \<and> 1 \<le> length i \<and>
         map_of fs ''salt'' = Some (JStr sa) \<and> 6 \<le> length sa)"
  proof
    assume "\<exists>d. validateRequestSchema v = Inr d"
    then show "\<exists>fs i sa. v = JObj fs \<and>
         map_of fs ''id'' = Some (JStr i) \<and> 1 \<le> length i \<and>
         map_of fs ''salt'' = Some (JStr sa) \<and> 6 \<le> length sa"
      unfolding validateRequestSchema_Inr by blast
  next
    assume "\<exists>fs i sa. v = JObj fs \<and>
         map_of fs ''id'' = Some (JStr i) \<and> 1 \<le> length i \<and>
         map_of fs ''salt'' = Some (JStr sa) \<and> 6 \<le> length sa"
    then obtain fs i sa where "v = JObj fs"
      "map_of fs ''id'' = Some (JStr i)" "1 \<le> length i"
      "map_of fs ''salt'' = Some (JStr sa)" "6 \<le> length sa"
      by blast
    then have "validateRequestSchema v = Inr \<lparr>id_field = i, salt = sa\<rparr>"
      unfolding validateRequestSchema_Inr by simp
    then show "\<exists>d. validateRequestSchema v = Inr d" ..
  qed
qed (simp_all add: postSchema_Inl validateRequestSchema_Inl post_posts_def put_posts_id_def
    post_req_validate_def delete_req_validate_def post_req_validate_index_def invalid_input_def
    c_json_def)

text \<open>An empty title and nothing else fails both schemas.\<close>

theorem validation_gates_handlers_witness:
  "postSchema (JObj [(''title'', JStr [])]) =
     Inl [Too_small [''title''] 1, Invalid_type [''content''] ''string'' ''undefined'']
   \<and> validateRequestSchema (JObj [(''title'', JStr [])]) =
     Inl [Invalid_type [''id''] ''string'' ''undefined'',
          Invalid_type [''salt''] ''string'' ''undefined'']
   \<and> post_posts (JObj [(''title'', JStr [])]) [] 0 0 ([] :: store) =
       (\<lparr>status = 400,
         body = Json (JObj [(''ok'', JBool False), (''message'', JStr ''Invalid input''),
           (''errors'', JArr [
              JObj [(''code'', JStr ''too_small''), (''minimum'', JNum 1),
                    (''type'', JStr ''string''), (''inclusive'', JBool True),
                    (''exact'', JBool False),
                    (''message'', JStr ''String must contain at least 1 character(s)''),
                    (''path'', JArr [JStr ''title''])],
              JObj [(''code'', JStr ''invalid_type''), (''expected'', JStr ''string''),
                    (''received'', JStr ''undefined''), (''path'', JArr [JStr ''content'']),
                    (''message'', JStr ''Required'')]])])\<rparr>,
        [])
   \<and> delete_req_validate mem_kv ''acme'' (JObj [(''title'', JStr [])]) [] =
       (\<lparr>status = 400,
         body = Json (JObj [(''ok'', JBool False), (''message'', JStr ''Invalid input''),
           (''errors'', JArr [
              JObj [(''code'', JStr ''invalid_type''), (''expected'', JStr ''string''),
                    (''received'', JStr ''undefined''), (''path'', JArr [JStr ''id'']),
                    (''message'', JStr ''Required'')],
              JObj [(''code'', JStr ''invalid_type''), (''expected'', JStr ''string''),
                    (''received'', JStr ''undefined''), (''path'', JArr [JStr ''salt'']),
                    (''message'', JStr ''Required'')]])])\<rparr>,
        [])"
proof -
  have p: "postSchema (JObj [(''title'', JStr [])]) =
     Inl [Too_small [''title''] 1, Invalid_type [''content''] ''string'' ''undefined'']"
    by (simp add: postSchema_def z_string_def)
  have q: "validateRequestSchema (JObj [(''title'', JStr [])]) =
     Inl [Invalid_type [''id''] ''string'' ''undefined'',
          Invalid_type [''salt''] ''string'' ''undefined'']"
    by (simp add: validateRequestSchema_def z_string_def)
  show ?thesis
    using p q
      validation_gates_handlers [of "JObj [(''title'', JStr [])]" "[]" 0 0 "[] :: store"
        "''p''" mem_kv "''acme''"]
    by (simp add: decimal_values)
qed

subsection \<open>C5: create, then list\<close>

text \<open>
  C5 says that Create followed by List-latest returns the record just created,
  whatever else the organization holds. The handler takes the last key of the listing
  of \<open>org:\<close>, and the identifier comes before the timestamp in a key: with a record
  of identifier \<open>zeta\<close> in the namespace, creating \<open>alpha\<close> and listing returns the
  record of \<open>zeta\<close>, which is older.
\<close>

theorem create_then_list_other_identifier:
  "fst (get_req_validate mem_kv ''acme''
     (snd (post_req_validate mem_kv ''acme''
        (JObj [(''id'', JStr ''alpha''), (''salt'', JStr ''123456'')]) 1730614980123
        [(''acme:zeta:2024-01-01T00:00:00.000Z'',
          Stringified (JObj [(''org'', JStr ''acme''), (''id'', JStr ''zeta''),
            (''salt'', JStr ''zzzzzz''), (''timestamp'', JStr ''2024-01-01T00:00:00.000Z'')]))])))
   = \<lparr>status = 200, body = Json (JObj [(''id'', JStr ''zeta''), (''salt'', JStr ''zzzzzz'')])\<rparr>"
  by (simp add: post_req_validate_def get_req_validate_def validateRequestSchema_def
      z_string_def iso_2024 composite_key_def store_put_def store_list_def store_get_def
      stored_record_def JSON_stringify_def c_json_def Let_def)

subsection \<open>C6: key order and capture time\<close>

text \<open>
  C6, as stated, fails twice. A capture time in the year 10000 is written
  \<open>+010000-01-01T00:00:00.000Z\<close>, and its key sorts before the key of the
  millisecond before, \<open>9999-12-31T23:59:59.999Z\<close>. And two requests created for
  \<open>(acme, alpha)\<close> at different times and then listed do not give either of them
  when the organization holds a record of identifier \<open>zeta\<close>: the listing of
  \<open>acme:\<close> ends with the key of \<open>zeta\<close>.
\<close>

theorem key_order_counterexample:
  "(253402300799999 :: int) < 253402300800000
   \<and> composite_key ''acme'' ''alpha'' (toISOString 253402300800000)
       < composite_key ''acme'' ''alpha'' (toISOString 253402300799999)
   \<and> fst (get_req_validate mem_kv ''acme''
       (snd (post_req_validate mem_kv ''acme''
          (JObj [(''id'', JStr ''alpha''), (''salt'', JStr ''222222'')]) 1730614980124
          (snd (post_req_validate mem_kv ''acme''
             (JObj [(''id'', JStr ''alpha''), (''salt'', JStr ''111111'')]) 1730614980123
             [(''acme:zeta:2024-01-01T00:00:00.000Z'',
               Stringified (JObj [(''org'', JStr ''acme''), (''id'', JStr ''zeta''),
                 (''salt'', JStr ''zzzzzz''),
                 (''timestamp'', JStr ''2024-01-01T00:00:00.000Z'')]))])))))
     = \<lparr>status = 200, body = Json (JObj [(''id'', JStr ''zeta''), (''salt'', JStr ''zzzzzz'')])\<rparr>"
proof -
  have "composite_key ''acme'' ''alpha'' (toISOString 253402300800000)
       < composite_key ''acme'' ''alpha'' (toISOString 253402300799999)"
    by (simp add: composite_key_less iso_9999 iso_10000)
  moreover have "fst (get_req_validate mem_kv ''acme''
       (snd (post_req_validate mem_kv ''acme''
          (JObj [(''id'', JStr ''alpha''), (''salt'', JStr ''222222'')]) 1730614980124
          (snd (post_req_validate mem_kv ''acme''
             (JObj [(''id'', JStr ''alpha''), (''salt'', JStr ''111111'')]) 1730614980123
             [(''acme:zeta:2024-01-01T00:00:00.000Z'',
               Stringified (JObj [(''org'', JStr ''acme''), (''id'', JStr ''zeta''),
                 (''salt'', JStr ''zzzzzz''),
                 (''timestamp'', JStr ''2024-01-01T00:00:00.000Z'')]))])))))
     = \<lparr>status = 200, body = Json (JObj [(''id'', JStr ''zeta''), (''salt'', JStr ''zzzzzz'')])\<rparr>"
    by (simp add: post_req_validate_def get_req_validate_def validateRequestSchema_def
      z_string_def iso_2024 composite_key_def store_put_def store_list_def store_get_def
      stored_record_def JSON_stringify_def c_json_def Let_def)
  ultimately show ?thesis by simp
qed

text \<open>
  C6, amended. For two capture times whose years are written with four digits
  (years 0 to 9999), the keys built from them with one organization and one
  identifier are in lexicographic order exactly when the times are in chronological
  order. Consequently, on the in-memory namespace, whose listing is in lexicographic
  order: when two valid requests with the same organization and identifier are
  created at two different such times, and no key that the namespace already holds
  under the prefix \<open>org:\<close> sorts after the key of the later time, then listing
  replies HTTP 200 with that identifier and the salt of the request with the later
  timestamp.
\<close>

theorem keys_order_by_capture_time:
  assumes "four_digit_year t1" "four_digit_year t2"
  shows "(composite_key org i (toISOString t1) < composite_key org i (toISOString t2)) = (t1 < t2)
    \<and> (validateRequestSchema v1 = Inr d1 \<and> validateRequestSchema v2 = Inr d2 \<and>
        id_field d1 = i \<and> id_field d2 = i \<and> t1 \<noteq> t2 \<and>
        (\<forall>k \<in> set (map fst st). prefix (org @ '':'') k \<longrightarrow>
           k \<le> composite_key org i (toISOString (max t1 t2))) \<longrightarrow>
        fst (get_req_validate mem_kv org
          (snd (post_req_validate mem_kv org v2 t2 (snd (post_req_validate mem_kv org v1 t1 st))))) =
          \<lparr>status = 200,
           body = Json (JObj [(''id'', JStr i),
             (''salt'', JStr (salt (if t1 < t2 then d2 else d1)))])\<rparr>)"
proof (intro conjI impI)
  show "(composite_key org i (toISOString t1) < composite_key org i (toISOString t2)) = (t1 < t2)"
    by (simp add: composite_key_less toISOString_less_iff [OF assms])
next
  assume h: "validateRequestSchema v1 = Inr d1 \<and> validateRequestSchema v2 = Inr d2 \<and>
        id_field d1 = i \<and> id_field d2 = i \<and> t1 \<noteq> t2 \<and>
        (\<forall>k \<in> set (map fst st). prefix (org @ '':'') k \<longrightarrow>
           k \<le> composite_key org i (toISOString (max t1 t2)))"
  then have "get_req_validate mem_kv org
           (snd (post_req_validate mem_kv org v2 t2 (snd (post_req_validate mem_kv org v1 t1 st))))
         = (echo (if t1 < t2 then d2 else d1),
            snd (post_req_validate mem_kv org v2 t2 (snd (post_req_validate mem_kv org v1 t1 st))))"
    using assms by (intro latest_of_two_creates) blast+
  then show "fst (get_req_validate mem_kv org
          (snd (post_req_validate mem_kv org v2 t2 (snd (post_req_validate mem_kv org v1 t1 st))))) =
          \<lparr>status = 200,
           body = Json (JObj [(''id'', JStr i),
             (''salt'', JStr (salt (if t1 < t2 then d2 else d1)))])\<rparr>"
    using h by (simp add: echo_def c_json_def)
qed

text \<open>
  Two requests one millisecond apart, in a namespace that already holds a record of
  the identifier \<open>aaa\<close>, which sorts before \<open>alpha\<close>.
\<close>

theorem keys_order_by_capture_time_witness:
  "four_digit_year 1730614980123 \<and> four_digit_year 1730614980124
   \<and> composite_key ''acme'' ''alpha'' (toISOString 1730614980123)
       < composite_key ''acme'' ''alpha'' (toISOString 1730614980124)
   \<and> fst (get_req_validate mem_kv ''acme''
       (snd (post_req_validate mem_kv ''acme''
          (JObj [(''id'', JStr ''alpha''), (''salt'', JStr ''222222'')]) 1730614980124
          (snd (post_req_validate mem_kv ''acme''
             (JObj [(''id'', JStr ''alpha''), (''salt'', JStr ''111111'')]) 1730614980123
             [(''acme:aaa:2024-01-01T00:00:00.000Z'',
               Stringified (JObj [(''org'', JStr ''acme''), (''id'', JStr ''aaa''),
                 (''salt'', JStr ''zzzzzz''),
                 (''timestamp'', JStr ''2024-01-01T00:00:00.000Z'')]))])))))
     = \<lparr>status = 200, body = Json (JObj [(''id'', JStr ''alpha''), (''salt'', JStr ''222222'')])\<rparr>"
proof -
  have v1: "validateRequestSchema (JObj [(''id'', JStr ''alpha''), (''salt'', JStr ''111111'')]) =
      Inr \<lparr>id_field = ''alpha'', salt = ''111111''\<rparr>"
    by (simp add: validateRequestSchema_def z_string_def)
  have v2: "validateRequestSchema (JObj [(''id'', JStr ''alpha''), (''salt'', JStr ''222222'')]) =
      Inr \<lparr>id_field = ''alpha'', salt = ''222222''\<rparr>"
    by (simp add: validateRequestSchema_def z_string_def)
  have top: "\<forall>k \<in> set (map fst [(''acme:aaa:2024-01-01T00:00:00.000Z'',
               Stringified (JObj [(''org'', JStr ''acme''), (''id'', JStr ''aaa''),
                 (''salt'', JStr ''zzzzzz''),
                 (''timestamp'', JStr ''2024-01-01T00:00:00.000Z'')]))]).
      prefix (''acme'' @ '':'') k \<longrightarrow>
      k \<le> composite_key ''acme'' ''alpha'' (toISOString (max 1730614980123 1730614980124))"
    by (simp add: iso_2024 composite_key_def)
  show ?thesis
    using v1 v2 top four_digit_2024
      keys_order_by_capture_time [OF four_digit_2024, of "''acme''" "''alpha''"
        "JObj [(''id'', JStr ''alpha''), (''salt'', JStr ''111111'')]"
        "\<lparr>id_field = ''alpha'', salt = ''111111''\<rparr>"
        "JObj [(''id'', JStr ''alpha''), (''salt'', JStr ''222222'')]"
        "\<lparr>id_field = ''alpha'', salt = ''222222''\<rparr>"
        "[(''acme:aaa:2024-01-01T00:00:00.000Z'',
               Stringified (JObj [(''org'', JStr ''acme''), (''id'', JStr ''aaa''),
                 (''salt'', JStr ''zzzzzz''),
                 (''timestamp'', JStr ''2024-01-01T00:00:00.000Z'')]))]"]
    by simp
qed

subsection \<open>C7: reading posts\<close>

text \<open>
  C7. For every request, GET \<^verbatim>\<open>/posts\<close> responds HTTP 200 with
  \<^verbatim>\<open>{ok: true, posts: []}\<close>, and GET \<^verbatim>\<open>/posts/:id\<close> responds HTTP 200 with
  \<^verbatim>\<open>{ok: true, post: null}\<close> for every identifier supplied (a path parameter is a
  segment that is not empty), also one that a create returned before; the state of
  the namespace is untouched. This holds through the route table of either source
  file.
\<close>

theorem posts_reads_are_stubs:
  "app_kv kv pf \<lparr>req_method = GET, req_path = [''posts''], json_body = b\<rparr> s =
     (\<lparr>status = 200, body = Json (JObj [(''ok'', JBool True), (''posts'', JArr [])])\<rparr>, s)
   \<and> app_index pf \<lparr>req_method = GET, req_path = [''posts''], json_body = b\<rparr> s =
     (\<lparr>status = 200, body = Json (JObj [(''ok'', JBool True), (''posts'', JArr [])])\<rparr>, s)
   \<and> (pid \<noteq> [] \<longrightarrow>
       app_kv kv pf \<lparr>req_method = GET, req_path = [''posts'', pid], json_body = b\<rparr> s =
         (\<lparr>status = 200, body = Json (JObj [(''ok'', JBool True), (''post'', JNull)])\<rparr>, s)
     \<and> app_index pf \<lparr>req_method = GET, req_path = [''posts'', pid], json_body = b\<rparr> s =
         (\<lparr>status = 200, body = Json (JObj [(''ok'', JBool True), (''post'', JNull)])\<rparr>, s))"
  by (simp add: app_kv_def app_index_def shared_routes_def posts_id_route_def get_posts_def
      get_posts_id_def c_json_def)

text \<open>
  The identifier that a create has just put into its reply is read back as a null
  post.
\<close>

theorem posts_reads_are_stubs_witness:
  "''7c9e6679-7425-40de-944b-e07fc1f90ae7'' \<noteq> []
   \<and> app_kv mem_kv \<lparr>random_bytes = [], first_now = 0, second_now = 0\<rparr>
       \<lparr>req_method = GET, req_path = [''posts'', ''7c9e6679-7425-40de-944b-e07fc1f90ae7''],
        json_body = JNull\<rparr> [] =
       (\<lparr>status = 200, body = Json (JObj [(''ok'', JBool True), (''post'', JNull)])\<rparr>, [])"
  using posts_reads_are_stubs [of mem_kv "\<lparr>random_bytes = [], first_now = 0, second_now = 0\<rparr>"
      JNull "[]" "''7c9e6679-7425-40de-944b-e07fc1f90ae7''"]
  by simp

subsection \<open>C8: creating a post\<close>

text \<open>
  C8, as stated, fails: \<^verbatim>\<open>createdAt\<close> and \<^verbatim>\<open>updatedAt\<close> come from two readings of the
  clock, and when the clock ticks between them the two timestamps differ.
\<close>

theorem create_post_timestamps_differ:
  "post_posts (JObj [(''title'', JStr ''Hello''), (''content'', JStr ''World'')])
     [0x7c, 0x9e, 0x66, 0x79, 0x74, 0x25, 0xf0, 0xde, 0x14, 0x4b, 0xe0, 0x7f, 0xc1,
       0xf9, 0x0a, 0xe7]
     1730614980123 1730614980124 ([] :: store) =
   (\<lparr>status = 201,
     body = Json (JObj [(''ok'', JBool True),
       (''post'', JObj [(''id'', JStr ''7c9e6679-7425-40de-944b-e07fc1f90ae7''),
          (''title'', JStr ''Hello''), (''content'', JStr ''World''),
          (''createdAt'', JStr ''2024-11-03T06:23:00.123Z''),
          (''updatedAt'', JStr ''2024-11-03T06:23:00.124Z'')])])\<rparr>, [])"
  by (simp add: post_posts_def postSchema_def z_string_def post_record_def c_json_def iso_2024
      randomUUID_values)

text \<open>
  C8, amended. For every valid Post payload, POST \<^verbatim>\<open>/posts\<close> replies HTTP 201 with
  \<^verbatim>\<open>{ok: true, post}\<close>, where the post's title and content are those of the input and
  its identifier is freshly generated, not empty and unique per call: it is the
  version 4 UUID written from the random bytes drawn for this call, 36 characters
  long when 16 bytes are drawn, and two calls get different identifiers whenever their
  16 bytes differ in a bit that the version and the variant do not overwrite.
  \<^verbatim>\<open>createdAt\<close> is the ISO form of the first clock reading and \<^verbatim>\<open>updatedAt\<close> that of the
  second, so that the two are identical whenever both readings are the same. The
  state of the namespace is returned as it was: no record is retained.
\<close>

theorem create_post_reply:
  assumes "postSchema v = Inr data"
  shows "post_posts v rnd t1 t2 s =
      (\<lparr>status = 201,
        body = Json (JObj [(''ok'', JBool True),
          (''post'', JObj [(''id'', JStr (randomUUID rnd)), (''title'', JStr (title data)),
             (''content'', JStr (content data)), (''createdAt'', JStr (toISOString t1)),
             (''updatedAt'', JStr (toISOString t2))])])\<rparr>, s)
    \<and> (\<exists>fs. v = JObj fs \<and> map_of fs ''title'' = Some (JStr (title data)) \<and>
          map_of fs ''content'' = Some (JStr (content data)))
    \<and> randomUUID rnd \<noteq> []
    \<and> (length rnd = 16 \<longrightarrow> length (randomUUID rnd) = 36)
    \<and> (length rnd = 16 \<and> length rnd' = 16 \<and> stamp_v4 rnd \<noteq> stamp_v4 rnd' \<longrightarrow>
          randomUUID rnd \<noteq> randomUUID rnd')
    \<and> (t1 = t2 \<longrightarrow> toISOString t1 = toISOString t2)"
proof -
  have "\<exists>fs. v = JObj fs \<and> map_of fs ''title'' = Some (JStr (title data)) \<and>
          map_of fs ''content'' = Some (JStr (content data))"
    using assms unfolding postSchema_Inr by blast
  moreover have "length rnd = 16 \<and> length rnd' = 16 \<and> stamp_v4 rnd \<noteq> stamp_v4 rnd' \<longrightarrow>
          randomUUID rnd \<noteq> randomUUID rnd'"
    using randomUUID_eq_iff [of rnd rnd'] by blast
  ultimately show ?thesis
    using assms randomUUID_not_empty [of rnd] length_randomUUID [of rnd]
    by (simp add: post_posts_def post_record_def c_json_def)
qed

text \<open>
  A valid payload, a clock that does not tick between the two readings, and a second
  draw of 16 bytes that differs from the first in its first byte.
\<close>

theorem create_post_reply_witness:
  "postSchema (JObj [(''title'', JStr ''Hello''), (''content'', JStr ''World'')]) =
     Inr \<lparr>title = ''Hello'', content = ''World''\<rparr>
   \<and> post_posts (JObj [(''title'', JStr ''Hello''), (''content'', JStr ''World'')])
       [0x7c, 0x9e, 0x66, 0x79, 0x74, 0x25, 0xf0, 0xde, 0x14, 0x4b, 0xe0, 0x7f, 0xc1,
       0xf9, 0x0a, 0xe7]
       1730614980123 1730614980123 ([] :: store) =
     (\<lparr>status = 201,
       body = Json (JObj [(''ok'', JBool True),
         (''post'', JObj [(''id'', JStr ''7c9e6679-7425-40de-944b-e07fc1f90ae7''),
            (''title'', JStr ''Hello''), (''content'', JStr ''World''),
            (''createdAt'', JStr ''2024-11-03T06:23:00.123Z''),
            (''updatedAt'', JStr ''2024-11-03T06:23:00.123Z'')])])\<rparr>, [])
   \<and> length (randomUUID [0x7c, 0x9e, 0x66, 0x79, 0x74, 0x25, 0xf0, 0xde, 0x14, 0x4b, 0xe0, 0x7f, 0xc1,
       0xf9, 0x0a, 0xe7]) = 36
   \<and> randomUUID [0x7c, 0x9e, 0x66, 0x79, 0x74, 0x25, 0xf0, 0xde, 0x14, 0x4b, 0xe0, 0x7f, 0xc1,
       0xf9, 0x0a, 0xe7] \<noteq>
     randomUUID [0x7d, 0x9e, 0x66, 0x79, 0x74, 0x25, 0xf0, 0xde, 0x14, 0x4b, 0xe0, 0x7f, 0xc1,
       0xf9, 0x0a, 0xe7]"
proof -
  have v: "postSchema (JObj [(''title'', JStr ''Hello''), (''content'', JStr ''World'')]) =
     Inr \<lparr>title = ''Hello'', content = ''World''\<rparr>"
    by (simp add: postSchema_def z_string_def)
  show ?thesis
    using v stamp_v4_values
      create_post_reply [OF v, of
        "[0x7c, 0x9e, 0x66, 0x79, 0x74, 0x25, 0xf0, 0xde, 0x14, 0x4b, 0xe0, 0x7f, 0xc1,
       0xf9, 0x0a, 0xe7]"
        1730614980123 1730614980123 "[] :: store"
        "[0x7d, 0x9e, 0x66, 0x79, 0x74, 0x25, 0xf0, 0xde, 0x14, 0x4b, 0xe0, 0x7f, 0xc1,
       0xf9, 0x0a, 0xe7]"]
    by (simp add: iso_2024 randomUUID_values)
qed

subsection \<open>C9: deleting reaches other identifiers\<close>

text \<open>
  C9. Identifiers may contain the delimiter. When the namespace holds a record under
  the key of an identifier \<open>id:x\<close>, a DELETE for \<open>(org, id)\<close> replies HTTP 200 and
  that record is gone as well, since its key \<open>org:id:x:timestamp\<close> has the prefix
  \<open>org:id:\<close>. That key is also the key of organization \<open>org:id\<close> and identifier
  \<open>x\<close>: the composite key is not injective in (organization, identifier).
\<close>

theorem deleting_reaches_other_identifiers:
  assumes "validateRequestSchema v = Inr data"
      and "(composite_key org (id_field data @ '':'' @ x) timestamp, r) \<in> set st"
  shows "fst (delete_req_validate mem_kv org v st) =
      \<lparr>status = 200,
       body = Json (JObj [(''id'', JStr (id_field data)), (''salt'', JStr (salt data))])\<rparr>
    \<and> composite_key org (id_field data @ '':'' @ x) timestamp
        \<notin> set (map fst (snd (delete_req_validate mem_kv org v st)))
    \<and> composite_key org (id_field data @ '':'' @ x) timestamp =
        composite_key (org @ '':'' @ id_field data) x timestamp
    \<and> \<not> inj (\<lambda>(org', i). composite_key org' i timestamp)"
proof -
  let ?k = "composite_key org (id_field data @ '':'' @ x) timestamp"
  let ?p = "org @ '':'' @ id_field data @ '':''"
  have pre: "prefix ?p ?k" by (simp add: composite_key_def)
  have "?k \<in> set (map fst st)" using assms(2) by force
  with pre have ex: "\<exists>k \<in> set (map fst st). prefix ?p k" by blast
  have same: "composite_key ''a'' ''b:c'' timestamp = composite_key ''a:b'' ''c'' timestamp"
    by (simp add: composite_key_def)
  have "\<not> inj (\<lambda>(org', i). composite_key org' i timestamp)"
  proof
    assume "inj (\<lambda>(org', i). composite_key org' i timestamp)"
    then have "(''a'', ''b:c'') = (''a:b'', ''c'')"
      using same by (auto dest!: injD [where x = "(''a'', ''b:c'')" and y = "(''a:b'', ''c'')"])
    then show False by simp
  qed
  then show ?thesis
    using ex pre delete_req_validate_mem [OF assms(1), of org st]
    by (auto simp add: composite_key_def echo_def c_json_def)
qed

text \<open>
  Create stores a record for the identifier \<open>alpha:x\<close>; a DELETE for
  \<open>(acme, alpha)\<close> removes it.
\<close>

theorem deleting_reaches_other_identifiers_witness:
  "snd (post_req_validate mem_kv ''acme''
          (JObj [(''id'', JStr ''alpha:x''), (''salt'', JStr ''abcdef'')]) 1730614980123 []) =
     [(''acme:alpha:x:2024-11-03T06:23:00.123Z'',
       Stringified (JObj [(''org'', JStr ''acme''), (''id'', JStr ''alpha:x''),
         (''salt'', JStr ''abcdef''), (''timestamp'', JStr ''2024-11-03T06:23:00.123Z'')]))]
   \<and> validateRequestSchema (JObj [(''id'', JStr ''alpha''), (''salt'', JStr ''123456'')]) =
     Inr \<lparr>id_field = ''alpha'', salt = ''123456''\<rparr>
   \<and> (composite_key ''acme'' (''alpha'' @ '':'' @ ''x'') ''2024-11-03T06:23:00.123Z'',
        Stringified (JObj [(''org'', JStr ''acme''), (''id'', JStr ''alpha:x''),
          (''salt'', JStr ''abcdef''), (''timestamp'', JStr ''2024-11-03T06:23:00.123Z'')]))
       \<in> set [(''acme:alpha:x:2024-11-03T06:23:00.123Z'',
                Stringified (JObj [(''org'', JStr ''acme''), (''id'', JStr ''alpha:x''),
                  (''salt'', JStr ''abcdef''), (''timestamp'', JStr ''2024-11-03T06:23:00.123Z'')]))]
   \<and> delete_req_validate mem_kv ''acme''
        (JObj [(''id'', JStr ''alpha''), (''salt'', JStr ''123456'')])
        [(''acme:alpha:x:2024-11-03T06:23:00.123Z'',
          Stringified (JObj [(''org'', JStr ''acme''), (''id'', JStr ''alpha:x''),
            (''salt'', JStr ''abcdef''), (''timestamp'', JStr ''2024-11-03T06:23:00.123Z'')]))] =
       (\<lparr>status = 200, body = Json (JObj [(''id'', JStr ''alpha''), (''salt'', JStr ''123456'')])\<rparr>,
        [])"
proof -
  have v: "validateRequestSchema (JObj [(''id'', JStr ''alpha''), (''salt'', JStr ''123456'')]) =
     Inr \<lparr>id_field = ''alpha'', salt = ''123456''\<rparr>"
    by (simp add: validateRequestSchema_def z_string_def)
  have m: "(composite_key ''acme'' (id_field \<lparr>id_field = ''alpha'', salt = ''123456''\<rparr> @ '':'' @ ''x'')
        ''2024-11-03T06:23:00.123Z'',
        Stringified (JObj [(''org'', JStr ''acme''), (''id'', JStr ''alpha:x''),
          (''salt'', JStr ''abcdef''), (''timestamp'', JStr ''2024-11-03T06:23:00.123Z'')]))
       \<in> set [(''acme:alpha:x:2024-11-03T06:23:00.123Z'',
                Stringified (JObj [(''org'', JStr ''acme''), (''id'', JStr ''alpha:x''),
                  (''salt'', JStr ''abcdef''), (''timestamp'', JStr ''2024-11-03T06:23:00.123Z'')]))]"
    by (simp add: composite_key_def)
  have "snd (delete_req_validate mem_kv ''acme''
        (JObj [(''id'', JStr ''alpha''), (''salt'', JStr ''123456'')])
        [(''acme:alpha:x:2024-11-03T06:23:00.123Z'',
          Stringified (JObj [(''org'', JStr ''acme''), (''id'', JStr ''alpha:x''),
            (''salt'', JStr ''abcdef''), (''timestamp'', JStr ''2024-11-03T06:23:00.123Z'')]))]) = []"
    by (simp add: delete_req_validate_mem [OF v])
  moreover have "snd (post_req_validate mem_kv ''acme''
          (JObj [(''id'', JStr ''alpha:x''), (''salt'', JStr ''abcdef'')]) 1730614980123 []) =
     [(''acme:alpha:x:2024-11-03T06:23:00.123Z'',
       Stringified (JObj [(''org'', JStr ''acme''), (''id'', JStr ''alpha:x''),
         (''salt'', JStr ''abcdef''), (''timestamp'', JStr ''2024-11-03T06:23:00.123Z'')]))]"
    by (simp add: post_req_validate_def validateRequestSchema_def z_string_def iso_2024
        composite_key_def store_put_def stored_record_def JSON_stringify_def Let_def)
  ultimately show ?thesis
    using v m deleting_reaches_other_identifiers [OF v m]
    by (simp add: prod_eq_iff composite_key_def)
qed

subsection \<open>C10: the two source files\<close>

text \<open>
  C10, as stated, fails in its last clause, that the two files agree only on the POST
  reply for valid input. They agree on the POST reply for an invalid payload as well,
  the same 400; and for a valid payload they disagree when \<^verbatim>\<open>put\<close> throws:
  \<^verbatim>\<open>src/unnamed/part_000\<close> replies 500 where \<^verbatim>\<open>src/src/index.ts\<close> replies 200.
\<close>

theorem post_replies_counterexample:
  "app_index \<lparr>random_bytes = [], first_now = 1730614980123, second_now = 1730614980123\<rparr>
       \<lparr>req_method = POST, req_path = [''api'', ''acme'', ''req-validate''],
        json_body = JObj [(''id'', JStr ''alpha''), (''salt'', JStr ''123'')]\<rparr> ([] :: store) =
     (\<lparr>status = 400,
         body = Json (JObj [(''ok'', JBool False), (''message'', JStr ''Invalid input''),
           (''errors'', JArr [
              JObj [(''code'', JStr ''too_small''), (''minimum'', JNum 6),
                    (''type'', JStr ''string''), (''inclusive'', JBool True),
                    (''exact'', JBool False),
                    (''message'', JStr ''String must contain at least 6 character(s)''),
                    (''path'', JArr [JStr ''salt''])]])])\<rparr>, [])
   \<and> app_kv mem_kv \<lparr>random_bytes = [], first_now = 1730614980123, second_now = 1730614980123\<rparr>
       \<lparr>req_method = POST, req_path = [''api'', ''acme'', ''req-validate''],
        json_body = JObj [(''id'', JStr ''alpha''), (''salt'', JStr ''123'')]\<rparr> [] =
     (\<lparr>status = 400,
         body = Json (JObj [(''ok'', JBool False), (''message'', JStr ''Invalid input''),
           (''errors'', JArr [
              JObj [(''code'', JStr ''too_small''), (''minimum'', JNum 6),
                    (''type'', JStr ''string''), (''inclusive'', JBool True),
                    (''exact'', JBool False),
                    (''message'', JStr ''String must contain at least 6 character(s)''),
                    (''path'', JArr [JStr ''salt''])]])])\<rparr>, [])
   \<and> app_index \<lparr>random_bytes = [], first_now = 1730614980123, second_now = 1730614980123\<rparr>
       \<lparr>req_method = POST, req_path = [''api'', ''acme'', ''req-validate''],
        json_body = JObj [(''id'', JStr ''alpha''), (''salt'', JStr ''123456'')]\<rparr> ([] :: store) =
     (\<lparr>status = 200, body = Json (JObj [(''id'', JStr ''alpha''), (''salt'', JStr ''123456'')])\<rparr>, [])
   \<and> app_kv (down_kv (Error ''KV PUT failed: 503'')) \<lparr>random_bytes = [], first_now = 1730614980123, second_now = 1730614980123\<rparr>
       \<lparr>req_method = POST, req_path = [''api'', ''acme'', ''req-validate''],
        json_body = JObj [(''id'', JStr ''alpha''), (''salt'', JStr ''123456'')]\<rparr> ([] :: store) =
     (\<lparr>status = 500,
         body = Json (JObj [(''ok'', JBool False), (''message'', JStr ''Validation failed''),
           (''errors'', JArr [JStr ''KV PUT failed: 503''])])\<rparr>, [])"
  by (simp add: app_index_def app_kv_def req_validate_not_shared req_validate_route_def
      post_req_validate_index_def post_req_validate_def validateRequestSchema_def z_string_def
      invalid_input_def echo_def failed_def c_json_def down_kv_def decimal_values)

text \<open>
  C10, amended. The two route tables are not equivalent on the validation-request
  routes. In \<^verbatim>\<open>src/src/index.ts\<close> the POST handler never changes the state of the
  namespace, it only echoes \<^verbatim>\<open>{id, salt}\<close> of a valid payload, and GET and DELETE
  \<^verbatim>\<open>/api/:org/req-validate\<close> match no route: the reply is the router's
  \<^verbatim>\<open>404 Not Found\<close>. In \<^verbatim>\<open>src/unnamed/part_000\<close> POST with a valid payload puts the
  record under the key \<open>org:id:timestamp\<close>; on the in-memory namespace a GET after
  it replies with the \<^verbatim>\<open>{id, salt}\<close> just stored, provided no key held before under
  \<open>org:\<close> sorts after the new one, and a DELETE after it with the same payload
  replies \<^verbatim>\<open>{id, salt}\<close> and leaves the entries held before whose keys do not begin
  with \<open>org:id:\<close>. The POST replies of the two files are the same for every invalid
  payload, the 400 of the validator, and for every valid payload whose \<^verbatim>\<open>put\<close>
  returns, \<^verbatim>\<open>{id, salt}\<close> with status 200; when \<^verbatim>\<open>put\<close> throws,
  \<^verbatim>\<open>src/unnamed/part_000\<close> replies 500.
\<close>

theorem variants_differ:
  "snd (app_index pf \<lparr>req_method = POST, req_path = [''api'', org, ''req-validate''],
            json_body = v\<rparr> s) = s
   \<and> (org \<noteq> [] \<longrightarrow>
        app_index pf \<lparr>req_method = GET, req_path = [''api'', org, ''req-validate''],
            json_body = v\<rparr> s = (\<lparr>status = 404, body = Text ''404 Not Found''\<rparr>, s)
      \<and> app_index pf \<lparr>req_method = DELETE, req_path = [''api'', org, ''req-validate''],
            json_body = v\<rparr> s = (\<lparr>status = 404, body = Text ''404 Not Found''\<rparr>, s))
   \<and> (org \<noteq> [] \<and> validateRequestSchema v = Inl is \<longrightarrow>
        app_index pf \<lparr>req_method = POST, req_path = [''api'', org, ''req-validate''],
            json_body = v\<rparr> s =
          (\<lparr>status = 400,
             body = Json (JObj [(''ok'', JBool False), (''message'', JStr ''Invalid input''),
               (''errors'', JArr (map issue_json is))])\<rparr>, s)
      \<and> app_kv kv pf \<lparr>req_method = POST, req_path = [''api'', org, ''req-validate''],
            json_body = v\<rparr> s =
          (\<lparr>status = 400,
             body = Json (JObj [(''ok'', JBool False), (''message'', JStr ''Invalid input''),
               (''errors'', JArr (map issue_json is))])\<rparr>, s))
   \<and> (org \<noteq> [] \<and> validateRequestSchema v = Inr data \<longrightarrow>
        app_index pf \<lparr>req_method = POST, req_path = [''api'', org, ''req-validate''],
            json_body = v\<rparr> s =
          (\<lparr>status = 200,
             body = Json (JObj [(''id'', JStr (id_field data)), (''salt'', JStr (salt data))])\<rparr>, s)
      \<and> (\<forall>s'. kv_put kv (org @ '':'' @ id_field data @ '':'' @ toISOString (first_now pf))
              (JSON_stringify (JObj [(''org'', JStr org), (''id'', JStr (id_field data)),
               (''salt'', JStr (salt data)), (''timestamp'', JStr (toISOString (first_now pf)))])) s = Inr s' \<longrightarrow>
            app_kv kv pf \<lparr>req_method = POST, req_path = [''api'', org, ''req-validate''],
            json_body = v\<rparr> s =
              (\<lparr>status = 200,
             body = Json (JObj [(''id'', JStr (id_field data)), (''salt'', JStr (salt data))])\<rparr>, s'))
      \<and> (\<forall>e. kv_put kv (org @ '':'' @ id_field data @ '':'' @ toISOString (first_now pf))
              (JSON_stringify (JObj [(''org'', JStr org), (''id'', JStr (id_field data)),
               (''salt'', JStr (salt data)), (''timestamp'', JStr (toISOString (first_now pf)))])) s = Inl e \<longrightarrow>
            status (fst (app_kv kv pf \<lparr>req_method = POST, req_path = [''api'', org, ''req-validate''],
            json_body = v\<rparr> s)) = 500)
      \<and> app_kv mem_kv pf \<lparr>req_method = POST, req_path = [''api'', org, ''req-validate''],
            json_body = v\<rparr> st =
          (\<lparr>status = 200,
             body = Json (JObj [(''id'', JStr (id_field data)), (''salt'', JStr (salt data))])\<rparr>,
           AList.update (org @ '':'' @ id_field data @ '':'' @ toISOString (first_now pf))
             (Stringified (JObj [(''org'', JStr org), (''id'', JStr (id_field data)),
               (''salt'', JStr (salt data)), (''timestamp'', JStr (toISOString (first_now pf)))])) st)
      \<and> ((\<forall>k \<in> set (map fst st). prefix (org @ '':'') k \<longrightarrow>
              k \<le> (org @ '':'' @ id_field data @ '':'' @ toISOString (first_now pf))) \<longrightarrow>
          app_kv mem_kv pf' \<lparr>req_method = GET, req_path = [''api'', org, ''req-validate''],
            json_body = v\<rparr>
            (snd (app_kv mem_kv pf \<lparr>req_method = POST, req_path = [''api'', org, ''req-validate''],
            json_body = v\<rparr> st)) =
          (\<lparr>status = 200,
             body = Json (JObj [(''id'', JStr (id_field data)), (''salt'', JStr (salt data))])\<rparr>,
           snd (app_kv mem_kv pf \<lparr>req_method = POST, req_path = [''api'', org, ''req-validate''],
            json_body = v\<rparr> st)))
      \<and> app_kv mem_kv pf' \<lparr>req_method = DELETE, req_path = [''api'', org, ''req-validate''],
            json_body = v\<rparr>
            (snd (app_kv mem_kv pf \<lparr>req_method = POST, req_path = [''api'', org, ''req-validate''],
            json_body = v\<rparr> st)) =
          (\<lparr>status = 200,
             body = Json (JObj [(''id'', JStr (id_field data)), (''salt'', JStr (salt data))])\<rparr>,
           filter (\<lambda>kv. \<not> prefix (org @ '':'' @ id_field data @ '':'') (fst kv)) st))"
proof (intro conjI impI allI)
  show "snd (app_index pf \<lparr>req_method = POST, req_path = [''api'', org, ''req-validate''],
            json_body = v\<rparr> s) = s"
    by (simp add: app_index_def req_validate_not_shared req_validate_route_def
        post_req_validate_index_def split: sum.splits)
next
  assume "org \<noteq> []"
  then show "app_index pf \<lparr>req_method = GET, req_path = [''api'', org, ''req-validate''],
            json_body = v\<rparr> s = (\<lparr>status = 404, body = Text ''404 Not Found''\<rparr>, s)"
    and "app_index pf \<lparr>req_method = DELETE, req_path = [''api'', org, ''req-validate''],
            json_body = v\<rparr> s = (\<lparr>status = 404, body = Text ''404 Not Found''\<rparr>, s)"
    by (simp_all add: app_index_def req_validate_not_shared req_validate_route_def
        route_missing_def)
next
  assume "org \<noteq> [] \<and> validateRequestSchema v = Inl is"
  then show "app_index pf \<lparr>req_method = POST, req_path = [''api'', org, ''req-validate''],
            json_body = v\<rparr> s =
          (\<lparr>status = 400,
             body = Json (JObj [(''ok'', JBool False), (''message'', JStr ''Invalid input''),
               (''errors'', JArr (map issue_json is))])\<rparr>, s)"
    and "app_kv kv pf \<lparr>req_method = POST, req_path = [''api'', org, ''req-validate''],
            json_body = v\<rparr> s =
          (\<lparr>status = 400,
             body = Json (JObj [(''ok'', JBool False), (''message'', JStr ''Invalid input''),
               (''errors'', JArr (map issue_json is))])\<rparr>, s)"
    by (simp_all add: app_index_def app_kv_def req_validate_not_shared req_validate_route_def
        post_req_validate_index_def post_req_validate_def invalid_input_def c_json_def)
next
  assume h: "org \<noteq> [] \<and> validateRequestSchema v = Inr data"
  then have v: "validateRequestSchema v = Inr data" by simp
  let ?key = "(org @ '':'' @ id_field data @ '':'' @ toISOString (first_now pf))"
  let ?rec = "Stringified (JObj [(''org'', JStr org), (''id'', JStr (id_field data)),
               (''salt'', JStr (salt data)), (''timestamp'', JStr (toISOString (first_now pf)))])"
  have kv_post: "app_kv kv' pf \<lparr>req_method = POST, req_path = [''api'', org, ''req-validate''],
            json_body = v\<rparr> s' = post_req_validate kv' org v (first_now pf) s'"
    for kv' :: "'t KVNamespace" and s'
    using h by (simp add: app_kv_def req_validate_not_shared req_validate_route_def)
  have mem_post: "app_kv mem_kv pf \<lparr>req_method = POST, req_path = [''api'', org, ''req-validate''],
            json_body = v\<rparr> st = (echo data, AList.update ?key ?rec st)"
    by (simp add: kv_post post_req_validate_mem [OF v] composite_key_def stored_record_def)
  show "app_index pf \<lparr>req_method = POST, req_path = [''api'', org, ''req-validate''],
            json_body = v\<rparr> s =
          (\<lparr>status = 200,
             body = Json (JObj [(''id'', JStr (id_field data)), (''salt'', JStr (salt data))])\<rparr>, s)"
    using h by (simp add: app_index_def req_validate_not_shared req_validate_route_def
        post_req_validate_index_def echo_def c_json_def)
  show "app_kv kv pf \<lparr>req_method = POST, req_path = [''api'', org, ''req-validate''],
            json_body = v\<rparr> s =
              (\<lparr>status = 200,
             body = Json (JObj [(''id'', JStr (id_field data)), (''salt'', JStr (salt data))])\<rparr>, s')"
    if "kv_put kv ?key (JSON_stringify (JObj [(''org'', JStr org), (''id'', JStr (id_field data)),
               (''salt'', JStr (salt data)), (''timestamp'', JStr (toISOString (first_now pf)))])) s = Inr s'" for s'
    using that v
    by (simp add: kv_post post_req_validate_def composite_key_def stored_record_def echo_def
        c_json_def Let_def)
  show "status (fst (app_kv kv pf \<lparr>req_method = POST, req_path = [''api'', org, ''req-validate''],
            json_body = v\<rparr> s)) = 500"
    if "kv_put kv ?key (JSON_stringify (JObj [(''org'', JStr org), (''id'', JStr (id_field data)),
               (''salt'', JStr (salt data)), (''timestamp'', JStr (toISOString (first_now pf)))])) s = Inl e" for e
    using that v
    by (simp add: kv_post post_req_validate_def composite_key_def stored_record_def failed_def
        c_json_def Let_def)
  show "app_kv mem_kv pf \<lparr>req_method = POST, req_path = [''api'', org, ''req-validate''],
            json_body = v\<rparr> st =
          (\<lparr>status = 200,
             body = Json (JObj [(''id'', JStr (id_field data)), (''salt'', JStr (salt data))])\<rparr>,
           AList.update ?key ?rec st)"
    by (simp add: mem_post echo_def c_json_def)
  show "app_kv mem_kv pf' \<lparr>req_method = GET, req_path = [''api'', org, ''req-validate''],
            json_body = v\<rparr>
            (snd (app_kv mem_kv pf \<lparr>req_method = POST, req_path = [''api'', org, ''req-validate''],
            json_body = v\<rparr> st)) =
          (\<lparr>status = 200,
             body = Json (JObj [(''id'', JStr (id_field data)), (''salt'', JStr (salt data))])\<rparr>,
           snd (app_kv mem_kv pf \<lparr>req_method = POST, req_path = [''api'', org, ''req-validate''],
            json_body = v\<rparr> st))"
    if top: "\<forall>k \<in> set (map fst st). prefix (org @ '':'') k \<longrightarrow> k \<le> ?key"
  proof -
    have "get_req_validate mem_kv org (AList.update ?key ?rec st) =
        (echo data, AList.update ?key ?rec st)"
    proof (rule get_req_validate_mem_latest [where k = ?key])
      show "?key \<in> set (map fst (AList.update ?key ?rec st))"
        by (simp add: AList.dom_update)
      show "prefix (org @ '':'') ?key" by simp
      show "\<forall>k' \<in> set (map fst (AList.update ?key ?rec st)). prefix (org @ '':'') k' \<longrightarrow> k' \<le> ?key"
        using top by (auto simp add: AList.dom_update)
      show "map_of (AList.update ?key ?rec st) ?key =
          Some (Stringified (stored_record org data (toISOString (first_now pf))))"
        by (simp add: AList.update_conv' stored_record_def)
    qed
    then show ?thesis
      using h unfolding mem_post snd_conv
      by (simp add: app_kv_def req_validate_not_shared req_validate_route_def
          echo_def c_json_def)
  qed
  show "app_kv mem_kv pf' \<lparr>req_method = DELETE, req_path = [''api'', org, ''req-validate''],
            json_body = v\<rparr>
            (snd (app_kv mem_kv pf \<lparr>req_method = POST, req_path = [''api'', org, ''req-validate''],
            json_body = v\<rparr> st)) =
          (\<lparr>status = 200,
             body = Json (JObj [(''id'', JStr (id_field data)), (''salt'', JStr (salt data))])\<rparr>,
           filter (\<lambda>kv. \<not> prefix (org @ '':'' @ id_field data @ '':'') (fst kv)) st)"
  proof -
    let ?p = "org @ '':'' @ id_field data @ '':''"
    have pre: "prefix ?p ?key" by simp
    have "?key \<in> set (map fst (AList.update ?key ?rec st))" by (simp add: AList.dom_update)
    with pre have ex: "\<exists>k \<in> set (map fst (AList.update ?key ?rec st)). prefix ?p k" by blast
    have "filter (\<lambda>kv. \<not> prefix ?p (fst kv)) (AList.update ?key ?rec st) =
        filter (\<lambda>kv. \<not> prefix ?p (fst kv)) st"
      using pre by (intro filter_update_dropped) simp
    then have "delete_req_validate mem_kv org v (AList.update ?key ?rec st) =
        (echo data, filter (\<lambda>kv. \<not> prefix ?p (fst kv)) st)"
      using ex by (simp add: delete_req_validate_mem [OF v])
    then show ?thesis
      using h unfolding mem_post snd_conv
      by (simp add: app_kv_def req_validate_not_shared req_validate_route_def
          echo_def c_json_def)
  qed
qed

text \<open>
  A valid request to either route table, on the empty in-memory namespace and on a
  namespace whose \<^verbatim>\<open>put\<close> throws, then GET and DELETE on what the POST left; and an
  invalid request.
\<close>

theorem variants_differ_witness:
  "''acme'' \<noteq> []
   \<and> validateRequestSchema (JObj [(''id'', JStr ''alpha''), (''salt'', JStr ''123456'')]) =
       Inr \<lparr>id_field = ''alpha'', salt = ''123456''\<rparr>
   \<and> app_index \<lparr>random_bytes = [], first_now = 1730614980123, second_now = 1730614980123\<rparr>
       \<lparr>req_method = POST, req_path = [''api'', ''acme'', ''req-validate''],
        json_body = JObj [(''id'', JStr ''alpha''), (''salt'', JStr ''123456'')]\<rparr> ([] :: store) =
       (\<lparr>status = 200, body = Json (JObj [(''id'', JStr ''alpha''), (''salt'', JStr ''123456'')])\<rparr>, [])
   \<and> app_kv mem_kv \<lparr>random_bytes = [], first_now = 1730614980123, second_now = 1730614980123\<rparr>
       \<lparr>req_method = POST, req_path = [''api'', ''acme'', ''req-validate''],
        json_body = JObj [(''id'', JStr ''alpha''), (''salt'', JStr ''123456'')]\<rparr> [] =
       (\<lparr>status = 200, body = Json (JObj [(''id'', JStr ''alpha''), (''salt'', JStr ''123456'')])\<rparr>,
        [(''acme:alpha:2024-11-03T06:23:00.123Z'',
          Stringified (JObj [(''org'', JStr ''acme''), (''id'', JStr ''alpha''),
            (''salt'', JStr ''123456''), (''timestamp'', JStr ''2024-11-03T06:23:00.123Z'')]))])
   \<and> status (fst (app_kv (down_kv (Error ''KV PUT failed: 503'')) \<lparr>random_bytes = [], first_now = 1730614980123, second_now = 1730614980123\<rparr>
       \<lparr>req_method = POST, req_path = [''api'', ''acme'', ''req-validate''],
        json_body = JObj [(''id'', JStr ''alpha''), (''salt'', JStr ''123456'')]\<rparr> ([] :: store))) = 500
   \<and> app_index \<lparr>random_bytes = [], first_now = 1730614980123, second_now = 1730614980123\<rparr>
       \<lparr>req_method = GET, req_path = [''api'', ''acme'', ''req-validate''],
        json_body = JObj [(''id'', JStr ''alpha''), (''salt'', JStr ''123456'')]\<rparr> ([] :: store) =
       (\<lparr>status = 404, body = Text ''404 Not Found''\<rparr>, [])
   \<and> app_kv mem_kv \<lparr>random_bytes = [], first_now = 1730614980123, second_now = 1730614980123\<rparr>
       \<lparr>req_method = GET, req_path = [''api'', ''acme'', ''req-validate''],
        json_body = JObj [(''id'', JStr ''alpha''), (''salt'', JStr ''123456'')]\<rparr>
       [(''acme:alpha:2024-11-03T06:23:00.123Z'',
          Stringified (JObj [(''org'', JStr ''acme''), (''id'', JStr ''alpha''),
            (''salt'', JStr ''123456''), (''timestamp'', JStr ''2024-11-03T06:23:00.123Z'')]))] =
       (\<lparr>status = 200, body = Json (JObj [(''id'', JStr ''alpha''), (''salt'', JStr ''123456'')])\<rparr>,
        [(''acme:alpha:2024-11-03T06:23:00.123Z'',
          Stringified (JObj [(''org'', JStr ''acme''), (''id'', JStr ''alpha''),
            (''salt'', JStr ''123456''), (''timestamp'', JStr ''2024-11-03T06:23:00.123Z'')]))])
   \<and> app_kv mem_kv \<lparr>random_bytes = [], first_now = 1730614980123, second_now = 1730614980123\<rparr>
       \<lparr>req_method = DELETE, req_path = [''api'', ''acme'', ''req-validate''],
        json_body = JObj [(''id'', JStr ''alpha''), (''salt'', JStr ''123456'')]\<rparr>
       [(''acme:alpha:2024-11-03T06:23:00.123Z'',
          Stringified (JObj [(''org'', JStr ''acme''), (''id'', JStr ''alpha''),
            (''salt'', JStr ''123456''), (''timestamp'', JStr ''2024-11-03T06:23:00.123Z'')]))] =
       (\<lparr>status = 200, body = Json (JObj [(''id'', JStr ''alpha''), (''salt'', JStr ''123456'')])\<rparr>, [])
   \<and> validateRequestSchema (JObj [(''id'', JStr ''alpha''), (''salt'', JStr ''123'')]) =
       Inl [Too_small [''salt''] 6]
   \<and> app_kv mem_kv \<lparr>random_bytes = [], first_now = 1730614980123, second_now = 1730614980123\<rparr>
       \<lparr>req_method = POST, req_path = [''api'', ''acme'', ''req-validate''],
        json_body = JObj [(''id'', JStr ''alpha''), (''salt'', JStr ''123'')]\<rparr> [] =
       (\<lparr>status = 400,
         body = Json (JObj [(''ok'', JBool False), (''message'', JStr ''Invalid input''),
           (''errors'', JArr [
              JObj [(''code'', JStr ''too_small''), (''minimum'', JNum 6),
                    (''type'', JStr ''string''), (''inclusive'', JBool True),
                    (''exact'', JBool False),
                    (''message'', JStr ''String must contain at least 6 character(s)''),
                    (''path'', JArr [JStr ''salt''])]])])\<rparr>, [])"
proof -
  have v: "validateRequestSchema (JObj [(''id'', JStr ''alpha''), (''salt'', JStr ''123456'')]) =
       Inr \<lparr>id_field = ''alpha'', salt = ''123456''\<rparr>"
    by (simp add: validateRequestSchema_def z_string_def)
  have w: "validateRequestSchema (JObj [(''id'', JStr ''alpha''), (''salt'', JStr ''123'')]) =
       Inl [Too_small [''salt''] 6]"
    by (simp add: validateRequestSchema_def z_string_def)
  have a: "''acme'' \<noteq> []" by simp
  have post: "snd (app_kv mem_kv \<lparr>random_bytes = [], first_now = 1730614980123, second_now = 1730614980123\<rparr>
       \<lparr>req_method = POST, req_path = [''api'', ''acme'', ''req-validate''],
        json_body = JObj [(''id'', JStr ''alpha''), (''salt'', JStr ''123456'')]\<rparr> []) =
       [(''acme:alpha:2024-11-03T06:23:00.123Z'',
          Stringified (JObj [(''org'', JStr ''acme''), (''id'', JStr ''alpha''),
            (''salt'', JStr ''123456''), (''timestamp'', JStr ''2024-11-03T06:23:00.123Z'')]))]"
    by (simp add: app_kv_def req_validate_not_shared req_validate_route_def v
        post_req_validate_mem composite_key_def stored_record_def iso_2024)
  note t = variants_differ [of
      "\<lparr>random_bytes = [], first_now = 1730614980123, second_now = 1730614980123\<rparr>"
      "''acme''" "JObj [(''id'', JStr ''alpha''), (''salt'', JStr ''123456'')]" "[] :: store" _
      "down_kv (Error ''KV PUT failed: 503'')" "\<lparr>id_field = ''alpha'', salt = ''123456''\<rparr>"
      "[]" "\<lparr>random_bytes = [], first_now = 1730614980123, second_now = 1730614980123\<rparr>"]
  note u = variants_differ [of
      "\<lparr>random_bytes = [], first_now = 1730614980123, second_now = 1730614980123\<rparr>"
      "''acme''" "JObj [(''id'', JStr ''alpha''), (''salt'', JStr ''123'')]" "[] :: store" "[Too_small [''salt''] 6]"
      mem_kv]
  show ?thesis
    using a v w t u
    by (simp add: post iso_2024 down_kv_def JSON_stringify_def decimal_values)
qed

end
